theory Spec2Isabelle
  imports Main "HOL-Library.Word"
begin

section \<open>PubSubNode: data model\<close>

text \<open>
  A shallow embedding of \<^verbatim>\<open>src/pubsub/include/marlin/pubsub/PubSubNode.hpp\<close>.
  The node is single threaded; every member function becomes a function from the node
  state to its return value and the new state. What the node does to its collaborators
  (transports, the transport factory, the delegate) is appended to the field
  \<open>effects\<close> of the state, in program order.
\<close>

type_synonym byte = "8 word"
type_synonym buffer = "byte list"
type_synonym address = nat

text \<open>
  A \<^verbatim>\<open>BaseTransport\<close> object. The node only ever compares transports by pointer;
  \<open>handle\<close> stands for the pointer, \<open>dst_addr\<close> and \<open>remote_static_pk\<close> are what
  \<^verbatim>\<open>transport.dst_addr\<close> and \<^verbatim>\<open>get_remote_static_pk()\<close> give.
\<close>

record transport =
  handle :: nat
  dst_addr :: address
  remote_static_pk :: buffer

text \<open>
  \<^verbatim>\<open>MessageHeader\<close>: two (pointer, size) pairs. A pointer into a buffer is modelled by
  the bytes of the buffer from that position on.
\<close>

record message_header =
  attestation_data :: buffer
  attestation_size :: nat
  witness_data :: buffer
  witness_size :: nat

datatype event =
    Send transport buffer
  | Close transport
  | Dial address buffer
  | CutThroughSend transport buffer
  | CutThroughSendStart transport "64 word"
  | CutThroughSendBytes transport "16 word" buffer
  | CutThroughSendSkip transport "16 word"
  | CutThroughSendFlush transport "16 word"
  | DelegateDidRecvMessage buffer message_header "16 word" "64 word"
  | DelegateManageSubscriptions

text \<open>
  The template parameters, the constructor arguments and the collaborators of the node.
  A value returned by a collaborator (\<^verbatim>\<open>cut_through_send\<close>,
  \<^verbatim>\<open>cut_through_send_start\<close>, \<^verbatim>\<open>cut_through_send_bytes\<close>) may depend on
  everything the node did before, so it is a function of the effects so far.
  \<open>own_static_pk\<close> is what \<^verbatim>\<open>crypto_scalarmult_base\<close> writes for \<^verbatim>\<open>keys\<close>.
  \<open>manage_subscriptions\<close> is the delegate's callback: it receives the solicited and
  the standby set by reference and may change both.
\<close>

record env =
  accept_unsol_conn :: bool
  enable_relay :: bool
  max_sol_conns :: nat
  max_unsol_conns :: nat
  channels :: "16 word list"
  get_transport :: "address \<Rightarrow> transport option"
  is_active :: "transport \<Rightarrow> bool"
  attester_parse_size :: "buffer \<Rightarrow> nat \<Rightarrow> nat"
  attester_verify :: "64 word \<Rightarrow> 16 word \<Rightarrow> buffer \<Rightarrow> message_header \<Rightarrow> bool"
  attester_attestation_size :: "64 word \<Rightarrow> 16 word \<Rightarrow> buffer \<Rightarrow> message_header \<Rightarrow> nat"
  attester_attest :: "64 word \<Rightarrow> 16 word \<Rightarrow> buffer \<Rightarrow> message_header \<Rightarrow> buffer \<Rightarrow> nat \<Rightarrow> buffer"
  witnesser_parse_size :: "buffer \<Rightarrow> nat \<Rightarrow> nat"
  witnesser_witness_size :: "message_header \<Rightarrow> nat"
  witnesser_witness :: "message_header \<Rightarrow> buffer \<Rightarrow> nat \<Rightarrow> buffer"
  cut_through_send_res :: "event list \<Rightarrow> transport \<Rightarrow> buffer \<Rightarrow> int"
  cut_through_send_start_res :: "event list \<Rightarrow> transport \<Rightarrow> 64 word \<Rightarrow> 16 word"
  cut_through_send_bytes_res :: "event list \<Rightarrow> transport \<Rightarrow> 16 word \<Rightarrow> buffer \<Rightarrow> int"
  cut_through_used_ids :: "transport \<Rightarrow> 16 word list"
  manage_subscriptions :: "nat \<Rightarrow> transport list \<Rightarrow> transport list \<Rightarrow> transport list \<times> transport list"
  own_static_pk :: buffer

text \<open>
  The member variables of \<^verbatim>\<open>PubSubNode\<close>. The three cut-through tables are
  \<^verbatim>\<open>std::unordered_map\<close>s that the code reads with \<^verbatim>\<open>operator[]\<close> only, so a missing
  key reads as the default value: they are total functions with that default
  (the empty list, 0, false).
\<close>

type_synonym session = "transport \<times> 16 word"

record node =
  sol_conns :: "transport list"
  sol_standby_conns :: "transport list"
  unsol_conns :: "transport list"
  blacklist_addr :: "address set"
  message_id_events :: "64 word list list"
  message_id_idx :: "8 word"
  message_id_set :: "64 word set"
  cut_through_map :: "session \<Rightarrow> session list"
  cut_through_length :: "session \<Rightarrow> 64 word"
  cut_through_header_recv :: "session \<Rightarrow> bool"
  effects :: "event list"

definition emit :: "event \<Rightarrow> node \<Rightarrow> node" where
  "emit e s = s\<lparr>effects := effects s @ [e]\<rparr>"

subsection \<open>PubSubTransportSet\<close>

text \<open>
  Modelled from the spec: \<^verbatim>\<open>PubSubTransportSet.hpp\<close> is not among the sources. The spec
  calls the three slots sets of transport references, and the node uses them as a
  \<^verbatim>\<open>std::unordered_set\<close> of transport pointers: \<^verbatim>\<open>insert\<close>, \<^verbatim>\<open>erase\<close>,
  \<^verbatim>\<open>size\<close>, iteration and \<^verbatim>\<open>check_tranport_in_set\<close>. A set is a list in its
  iteration order; inserting an element that is present changes nothing.
\<close>

definition check_tranport_in_set :: "transport list \<Rightarrow> transport \<Rightarrow> bool" where
  "check_tranport_in_set t_set t = (t \<in> set t_set)"

definition set_insert :: "transport \<Rightarrow> transport list \<Rightarrow> transport list" where
  "set_insert t t_set = (if t \<in> set t_set then t_set else t_set @ [t])"

definition set_erase :: "transport \<Rightarrow> transport list \<Rightarrow> transport list" where
  "set_erase t t_set = removeAll t t_set"

subsection \<open>net::Buffer\<close>

text \<open>
  Modelled from the spec: \<^verbatim>\<open>net::Buffer\<close> is not among the sources. A buffer is the
  list of its visible bytes; \<^verbatim>\<open>cover n\<close> hides the first \<open>n\<close> of them; all integers
  are big-endian (spec, section 6). A read or write that fits in the buffer is exactly
  the big-endian one. The spec does not say what one that does not fit does: here a
  read decodes the bytes that are there, and a write keeps the buffer's length.
\<close>

definition cover :: "buffer \<Rightarrow> nat \<Rightarrow> buffer" where
  "cover b n = drop n b"

definition be_decode :: "buffer \<Rightarrow> nat" where
  "be_decode b = foldl (\<lambda>acc x. acc * 256 + unat x) 0 b"

definition read_uint64_be :: "buffer \<Rightarrow> nat \<Rightarrow> 64 word" where
  "read_uint64_be b pos = of_nat (be_decode (take 8 (drop pos b)))"

definition read_uint16_be :: "buffer \<Rightarrow> nat \<Rightarrow> 16 word" where
  "read_uint16_be b pos = of_nat (be_decode (take 2 (drop pos b)))"

definition write_bytes :: "buffer \<Rightarrow> nat \<Rightarrow> buffer \<Rightarrow> buffer" where
  "write_bytes b pos d = take (length b) (take pos b @ d @ drop (pos + length d) b)"

definition be_encode :: "nat \<Rightarrow> nat \<Rightarrow> buffer" where
  "be_encode k v = map (\<lambda>i. of_nat (v div 256 ^ (k - 1 - i))) [0..<k]"

definition write_uint16_be :: "buffer \<Rightarrow> nat \<Rightarrow> 16 word \<Rightarrow> buffer" where
  "write_uint16_be b pos v = write_bytes b pos (be_encode 2 (unat v))"

definition write_uint64_be :: "buffer \<Rightarrow> nat \<Rightarrow> 64 word \<Rightarrow> buffer" where
  "write_uint64_be b pos v = write_bytes b pos (be_encode 8 (unat v))"

definition bytes_of_string :: "string \<Rightarrow> buffer" where
  "bytes_of_string str = map (\<lambda>c. of_nat (of_char c)) str"

section \<open>Pub/sub protocol messages\<close>

text \<open>\<^verbatim>\<open>send_SUBSCRIBE\<close>: \<^verbatim>\<open>Buffer({0}, 3)\<close>, the channel at offset 1.\<close>

definition send_SUBSCRIBE :: "transport \<Rightarrow> 16 word \<Rightarrow> node \<Rightarrow> node" where
  "send_SUBSCRIBE t channel s = emit (Send t (write_uint16_be [0, 0, 0] 1 channel)) s"

definition send_UNSUBSCRIBE :: "transport \<Rightarrow> 16 word \<Rightarrow> node \<Rightarrow> node" where
  "send_UNSUBSCRIBE t channel s = emit (Send t (write_uint16_be [1, 0, 0] 1 channel)) s"

text \<open>\<^verbatim>\<open>send_RESPONSE\<close>: type 2, the success flag, the message string.\<close>

definition send_RESPONSE :: "transport \<Rightarrow> bool \<Rightarrow> string \<Rightarrow> node \<Rightarrow> node" where
  "send_RESPONSE t success msg_string s =
     emit (Send t ([2, (if success then 1 else 0)] @ bytes_of_string msg_string)) s"

section \<open>Slot management\<close>

definition check_tranport_present :: "node \<Rightarrow> transport \<Rightarrow> bool" where
  "check_tranport_present s t =
     (if check_tranport_in_set (sol_conns s) t
         \<or> check_tranport_in_set (sol_standby_conns s) t
         \<or> check_tranport_in_set (unsol_conns s) t
      then True else False)"

text \<open>
  \<^verbatim>\<open>remove_conn(t_set, transport)\<close>: the set is passed by reference and compared with
  \<^verbatim>\<open>&sol_conns\<close>, so the model names the set.
\<close>

datatype slot = Sol | Standby | Unsol

definition slot_get :: "slot \<Rightarrow> node \<Rightarrow> transport list" where
  "slot_get k s = (case k of Sol \<Rightarrow> sol_conns s | Standby \<Rightarrow> sol_standby_conns s
                   | Unsol \<Rightarrow> unsol_conns s)"

definition slot_put :: "slot \<Rightarrow> transport list \<Rightarrow> node \<Rightarrow> node" where
  "slot_put k v s = (case k of Sol \<Rightarrow> s\<lparr>sol_conns := v\<rparr>
                     | Standby \<Rightarrow> s\<lparr>sol_standby_conns := v\<rparr>
                     | Unsol \<Rightarrow> s\<lparr>unsol_conns := v\<rparr>)"

definition remove_conn :: "slot \<Rightarrow> transport \<Rightarrow> node \<Rightarrow> bool \<times> node" where
  "remove_conn k t s =
     (if check_tranport_in_set (slot_get k s) t then
        (let s1 = slot_put k (set_erase t (slot_get k s)) s;
             s2 = (if k = Sol then send_RESPONSE t True ''UNSUBSCRIBED'' s1 else s1)
         in (True, s2))
      else (False, s))"

definition add_sol_standby_conn :: "transport \<Rightarrow> node \<Rightarrow> bool \<times> node" where
  "add_sol_standby_conn t s =
     (if \<not> check_tranport_present s t then
        (True, s\<lparr>sol_standby_conns := set_insert t (sol_standby_conns s)\<rparr>)
      else (False, s))"

definition add_unsol_conn :: "env \<Rightarrow> transport \<Rightarrow> node \<Rightarrow> bool \<times> node" where
  "add_unsol_conn E t s =
     (if length (unsol_conns s) \<ge> max_unsol_conns E then (False, s)
      else if \<not> check_tranport_present s t then
        (let s1 = s\<lparr>unsol_conns := set_insert t (unsol_conns s)\<rparr>;
             s2 = send_RESPONSE t True ''SUBSCRIBED'' s1
         in (True, s2))
      else (False, s))"

text \<open>
  \<^verbatim>\<open>add_sol_conn(BaseTransport&)\<close>. A full solicited set sends the transport to
  \<^verbatim>\<open>add_sol_standby_conn\<close>; otherwise the transport leaves the standby and the
  unsolicited set, and enters the solicited set unless it is in it already, with a
  SUBSCRIBE for every channel of the delegate and a RESPONSE.
\<close>

definition add_sol_conn :: "env \<Rightarrow> transport \<Rightarrow> node \<Rightarrow> bool \<times> node" where
  "add_sol_conn E t s =
     (if length (sol_conns s) \<ge> max_sol_conns E then
        (False, snd (add_sol_standby_conn t s))
      else
        (let s1 = snd (remove_conn Standby t s);
             s2 = snd (remove_conn Unsol t s1)
         in if \<not> check_tranport_present s2 t then
              (let s3 = fold (\<lambda>channel. send_SUBSCRIBE t channel) (channels E) s2;
                   s4 = s3\<lparr>sol_conns := set_insert t (sol_conns s3)\<rparr>;
                   s5 = send_RESPONSE t True ''SUBSCRIBED'' s4
               in (True, s5))
            else (False, s2)))"

text \<open>
  \<^verbatim>\<open>add_sol_conn(SocketAddress const&)\<close>. The function is declared to return
  \<^verbatim>\<open>bool\<close>; its last statement is the call \<^verbatim>\<open>add_sol_conn(*transport);\<close> with no
  \<^verbatim>\<open>return\<close>, so on that path control reaches the closing brace and no value is
  returned: \<open>None\<close>.
\<close>

definition add_sol_conn_addr :: "env \<Rightarrow> address \<Rightarrow> node \<Rightarrow> bool option \<times> node" where
  "add_sol_conn_addr E addr s =
     (case get_transport E addr of
        None \<Rightarrow> (Some False, s)
      | Some t \<Rightarrow> (None, snd (add_sol_conn E t s)))"

section \<open>Incoming SUBSCRIBE, close, subscribe\<close>

text \<open>
  \<^verbatim>\<open>did_recv_SUBSCRIBE\<close>. The channel read from the buffer is unused. The return
  value is the \<^verbatim>\<open>int\<close> of the source.
\<close>

definition did_recv_SUBSCRIBE :: "env \<Rightarrow> transport \<Rightarrow> buffer \<Rightarrow> node \<Rightarrow> int \<times> node" where
  "did_recv_SUBSCRIBE E t bytes s =
     (if accept_unsol_conn E then
        (if dst_addr t \<in> blacklist_addr s then
           (let s1 = s\<lparr>blacklist_addr := blacklist_addr s - {dst_addr t}\<rparr>;
                s2 = snd (add_sol_conn E t s1)
            in (0, s2))
         else
           (let s1 = snd (add_unsol_conn E t s)
            in if \<not> check_tranport_present s1 t then (- 1, emit (Close t) s1)
               else (0, s1)))
      else (0, s))"

text \<open>
  The two loops at the end of \<^verbatim>\<open>did_close\<close>: flush and erase every session the
  closed transport feeds, then take the closed transport out of every other session's
  subscriber list (the first entry only: the loop breaks after one erase). Before that,
  \<open>r2\<close> is the value of \<^verbatim>\<open>remove_conn(sol_conns, ..) || remove_conn(sol_standby_conns, ..)\<close>:
  the second call is made only when the first returns false.
\<close>

definition flush_session :: "transport \<Rightarrow> 16 word \<Rightarrow> node \<Rightarrow> node" where
  "flush_session t i s =
     (let s1 = fold (\<lambda>(subscriber, subscriber_id). emit (CutThroughSendFlush subscriber subscriber_id))
                 (cut_through_map s (t, i)) s
      in s1\<lparr>cut_through_map := (cut_through_map s1)((t, i) := [])\<rparr>)"

fun erase_first :: "(session \<Rightarrow> bool) \<Rightarrow> session list \<Rightarrow> session list" where
  "erase_first P [] = []"
| "erase_first P (x # xs) = (if P x then xs else x # erase_first P xs)"

definition did_close :: "env \<Rightarrow> transport \<Rightarrow> node \<Rightarrow> node" where
  "did_close E t s =
     (let (r1, s1) = remove_conn Sol t s;
          (r2, s2) = (if r1 then (True, s1) else remove_conn Standby t s1);
          s3 = (if r2 then s2\<lparr>blacklist_addr := insert (dst_addr t) (blacklist_addr s2)\<rparr> else s2);
          s4 = snd (remove_conn Unsol t s3);
          s5 = fold (flush_session t) (cut_through_used_ids E t) s4;
          s6 = s5\<lparr>cut_through_map := (\<lambda>k. erase_first (\<lambda>x. fst x = t) (cut_through_map s5 k))\<rparr>;
          s7 = emit DelegateManageSubscriptions s6;
          (sol', standby') = manage_subscriptions E (max_sol_conns E) (sol_conns s7) (sol_standby_conns s7)
      in s7\<lparr>sol_conns := sol', sol_standby_conns := standby'\<rparr>)"

definition dial :: "address \<Rightarrow> buffer \<Rightarrow> node \<Rightarrow> node" where
  "dial addr remote_pk s = emit (Dial addr remote_pk) s"

definition subscribe :: "env \<Rightarrow> address \<Rightarrow> buffer \<Rightarrow> node \<Rightarrow> node" where
  "subscribe E addr remote_pk s =
     (if addr \<in> blacklist_addr s then s
      else (case get_transport E addr of
              None \<Rightarrow> dial addr remote_pk s
            | Some t \<Rightarrow> if \<not> is_active E t then s else snd (add_sol_conn E t s)))"

section \<open>MESSAGE: sending and receiving\<close>

text \<open>
  \<^verbatim>\<open>create_MESSAGE(channel, message_id, data, size, prev_header)\<close>. The pair
  (\<^verbatim>\<open>data\<close>, \<^verbatim>\<open>size\<close>) is the list of the \<open>size\<close> payload bytes. The buffer is
  \<^verbatim>\<open>Buffer({3}, buf_size)\<close>; the attester and the witnesser write into it at the
  offset they are given.
\<close>

definition create_MESSAGE :: "env \<Rightarrow> 16 word \<Rightarrow> 64 word \<Rightarrow> buffer \<Rightarrow> message_header \<Rightarrow> buffer" where
  "create_MESSAGE E channel message_id data prev_header =
     (let buf_size = 11 + length data
            + attester_attestation_size E message_id channel data prev_header
            + witnesser_witness_size E prev_header;
          m0 = 3 # replicate (buf_size - 1) 0;
          m1 = write_uint64_be m0 1 message_id;
          m2 = write_uint16_be m1 9 channel;
          offset = 11;
          m3 = attester_attest E message_id channel data prev_header m2 offset;
          offset1 = offset + attester_attestation_size E message_id channel data prev_header;
          m4 = witnesser_witness E prev_header m3 offset1;
          offset2 = offset1 + witnesser_witness_size E prev_header
      in write_bytes m4 offset2 data)"

definition send_MESSAGE ::
  "env \<Rightarrow> transport \<Rightarrow> 16 word \<Rightarrow> 64 word \<Rightarrow> buffer \<Rightarrow> message_header \<Rightarrow> node \<Rightarrow> node" where
  "send_MESSAGE E t channel message_id data prev_header s =
     emit (Send t (create_MESSAGE E channel message_id data prev_header)) s"

definition send_message_with_cut_through_check ::
  "env \<Rightarrow> transport \<Rightarrow> 16 word \<Rightarrow> 64 word \<Rightarrow> buffer \<Rightarrow> message_header \<Rightarrow> node \<Rightarrow> node" where
  "send_message_with_cut_through_check E t channel message_id data prev_header s =
     (if length data > 50000 then
        (let m = create_MESSAGE E channel message_id data prev_header;
             res = cut_through_send_res E (effects s) t m;
             s1 = emit (CutThroughSend t m) s
         in if res < 0 then emit (Close t) s1 else s1)
      else send_MESSAGE E t channel message_id data prev_header s)"

text \<open>
  \<^verbatim>\<open>send_message_on_channel(channel, message_id, data, size, excluded, prev_header)\<close>:
  the loop over \<^verbatim>\<open>sol_conns\<close>, then the loop over \<^verbatim>\<open>unsol_conns\<close>. \<open>excluded\<close> is
  the pointer argument: \<open>None\<close> is \<^verbatim>\<open>nullptr\<close>.
\<close>

definition is_excluded :: "address option \<Rightarrow> transport \<Rightarrow> bool" where
  "is_excluded excluded t = (case excluded of None \<Rightarrow> False | Some a \<Rightarrow> dst_addr t = a)"

definition send_unless_excluded ::
  "env \<Rightarrow> 16 word \<Rightarrow> 64 word \<Rightarrow> buffer \<Rightarrow> address option \<Rightarrow> message_header \<Rightarrow> transport \<Rightarrow> node \<Rightarrow> node" where
  "send_unless_excluded E channel message_id data excluded prev_header t s =
     (if is_excluded excluded t then s
      else send_message_with_cut_through_check E t channel message_id data prev_header s)"

definition send_message_on_channel ::
  "env \<Rightarrow> 16 word \<Rightarrow> 64 word \<Rightarrow> buffer \<Rightarrow> address option \<Rightarrow> message_header \<Rightarrow> node \<Rightarrow> node" where
  "send_message_on_channel E channel message_id data excluded prev_header s =
     (let s1 = fold (send_unless_excluded E channel message_id data excluded prev_header) (sol_conns s) s
      in fold (send_unless_excluded E channel message_id data excluded prev_header) (unsol_conns s1) s1)"

text \<open>
  \<^verbatim>\<open>did_recv_MESSAGE\<close>, lines 672 to 681: what is left of the buffer after the message
  id and the channel is the attestation, the witness and the payload.
\<close>

definition parse_header :: "env \<Rightarrow> buffer \<Rightarrow> message_header \<times> buffer" where
  "parse_header E bytes =
     (let b1 = cover bytes 10;
          a_size = attester_parse_size E b1 0;
          b2 = cover b1 a_size;
          w_size = witnesser_parse_size E b2 0;
          b3 = cover b2 w_size
      in (\<lparr>attestation_data = b1, attestation_size = a_size,
           witness_data = b2, witness_size = w_size\<rparr>, b3))"

definition did_recv_MESSAGE :: "env \<Rightarrow> transport \<Rightarrow> buffer \<Rightarrow> node \<Rightarrow> int \<times> node" where
  "did_recv_MESSAGE E t bytes s =
     (let message_id = read_uint64_be bytes 0;
          channel = read_uint16_be bytes 8
      in if message_id \<notin> message_id_set s then
           (let (header, payload) = parse_header E bytes
            in if \<not> attester_verify E message_id channel payload header then
                 (- 1, emit (Close t) s)
               else
                 (let idx = unat (message_id_idx s);
                      s1 = s\<lparr>message_id_set := insert message_id (message_id_set s),
                             message_id_events := (message_id_events s)
                               [idx := message_id_events s ! idx @ [message_id]]\<rparr>;
                      s2 = (if enable_relay E then
                              send_message_on_channel E channel message_id payload
                                (Some (dst_addr t)) header s1
                            else s1);
                      s3 = emit (DelegateDidRecvMessage payload header channel message_id) s2
                  in (0, s3)))
         else (0, s))"

text \<open>A run of \<^verbatim>\<open>did_recv_MESSAGE\<close> calls, with the return value of each.\<close>

fun recv_all :: "env \<Rightarrow> (transport \<times> buffer) list \<Rightarrow> node \<Rightarrow> int list \<times> node" where
  "recv_all E [] s = ([], s)"
| "recv_all E ((t, bytes) # calls) s =
     (let (r, s1) = did_recv_MESSAGE E t bytes s;
          (rs, s2) = recv_all E calls s1
      in (r # rs, s2))"

text \<open>Reading the effects: the delegate's upcalls, and the messages handed to transports.\<close>

fun is_delegate_upcall :: "event \<Rightarrow> bool" where
  "is_delegate_upcall (DelegateDidRecvMessage payload header channel message_id) = True"
| "is_delegate_upcall e = False"

fun message_sent :: "event \<Rightarrow> (transport \<times> bool \<times> buffer) option" where
  "message_sent (Send t m) = Some (t, False, m)"
| "message_sent (CutThroughSend t m) = Some (t, True, m)"
| "message_sent e = None"

definition message_sends :: "event list \<Rightarrow> (transport \<times> bool \<times> buffer) list" where
  "message_sends es = List.map_filter message_sent es"

text \<open>The effects of sending one MESSAGE buffer: a send of that buffer, or a close.\<close>

fun is_send_effect :: "buffer \<Rightarrow> event \<Rightarrow> bool" where
  "is_send_effect m (Send t m') = (m' = m)"
| "is_send_effect m (CutThroughSend t m') = (m' = m)"
| "is_send_effect m (Close t) = True"
| "is_send_effect m e = False"

definition delegate_upcalls :: "event list \<Rightarrow> event list" where
  "delegate_upcalls es = filter is_delegate_upcall es"

text \<open>What \<^verbatim>\<open>attester.verify\<close> answers for an incoming MESSAGE buffer.\<close>

definition attestation_passes :: "env \<Rightarrow> buffer \<Rightarrow> bool" where
  "attestation_passes E bytes =
     attester_verify E (read_uint64_be bytes 0) (read_uint16_be bytes 8)
       (snd (parse_header E bytes)) (fst (parse_header E bytes))"

definition new_effects :: "node \<Rightarrow> node \<Rightarrow> event list" where
  "new_effects s s' = drop (length (effects s)) (effects s')"

section \<open>Cut-through relay\<close>

definition cut_through_recv_start :: "transport \<Rightarrow> 16 word \<Rightarrow> 64 word \<Rightarrow> node \<Rightarrow> node" where
  "cut_through_recv_start t i len s =
     s\<lparr>cut_through_map := (cut_through_map s)((t, i) := []),
       cut_through_header_recv := (cut_through_header_recv s)((t, i) := False),
       cut_through_length := (cut_through_length s)((t, i) := len)\<rparr>"

text \<open>
  The inner loop of \<^verbatim>\<open>cut_through_recv_bytes\<close>: \<^verbatim>\<open>memcmp\<close> of 32 bytes of the
  subscriber's remote static key against chunk \<open>i\<close> of the witness, which starts at
  offset 13, for every \<open>i\<close> below \<open>witness_length / 32\<close>.
\<close>

definition pk_in_witness :: "buffer \<Rightarrow> nat \<Rightarrow> transport \<Rightarrow> bool" where
  "pk_in_witness bytes witness_length subscriber =
     list_ex (\<lambda>i. take 32 (drop (13 + 32 * i) bytes) = take 32 (remote_static_pk subscriber))
       [0..<witness_length div 32]"

text \<open>The body of the loop over \<^verbatim>\<open>sol_conns\<close>, and of the identical loop over \<^verbatim>\<open>unsol_conns\<close>.\<close>

definition cut_through_subscribe ::
  "env \<Rightarrow> transport \<Rightarrow> 16 word \<Rightarrow> buffer \<Rightarrow> nat \<Rightarrow> transport \<Rightarrow> node \<Rightarrow> node" where
  "cut_through_subscribe E t i bytes witness_length subscriber s =
     (if t = subscriber then s
      else if pk_in_witness bytes witness_length subscriber then s
      else
        (let len = cut_through_length s (t, i) + 32;
             sub_id = cut_through_send_start_res E (effects s) subscriber len;
             s1 = emit (CutThroughSendStart subscriber len) s
         in if sub_id = 0 then s1
            else s1\<lparr>cut_through_map := (cut_through_map s1)
                   ((t, i) := cut_through_map s1 (t, i) @ [(subscriber, sub_id)])\<rparr>))"

text \<open>
  The branch of \<^verbatim>\<open>cut_through_recv_bytes\<close> taken once the header has been seen: every
  subscriber of the session gets a copy of the bytes, and a subscriber whose
  \<^verbatim>\<open>cut_through_send_bytes\<close> fails is closed. The branch returns 0.
\<close>

definition cut_through_send_copy :: "env \<Rightarrow> buffer \<Rightarrow> session \<Rightarrow> node \<Rightarrow> node" where
  "cut_through_send_copy E bytes sub s =
     (let res = cut_through_send_bytes_res E (effects s) (fst sub) (snd sub) bytes;
          s1 = emit (CutThroughSendBytes (fst sub) (snd sub) bytes) s
      in if res < 0 then emit (Close (fst sub)) s1 else s1)"

definition cut_through_forward :: "env \<Rightarrow> session \<Rightarrow> buffer \<Rightarrow> node \<Rightarrow> int \<times> node" where
  "cut_through_forward E k bytes s = (0, fold (cut_through_send_copy E bytes) (cut_through_map s k) s)"

text \<open>
  \<^verbatim>\<open>cut_through_recv_bytes\<close>. On the first bytes of a session the function sets the
  header flag and later calls itself twice, for the new header and for the rest of the
  bytes; with the flag set those calls are \<open>cut_through_forward\<close>. The size check
  compares \<^verbatim>\<open>(uint16_t)bytes.size()\<close>, the size modulo 65536; the new witness length
  is written as a \<^verbatim>\<open>uint16_t\<close>.
\<close>

definition cut_through_recv_bytes :: "env \<Rightarrow> transport \<Rightarrow> 16 word \<Rightarrow> buffer \<Rightarrow> node \<Rightarrow> int \<times> node" where
  "cut_through_recv_bytes E t i bytes s =
     (if \<not> cut_through_header_recv s (t, i) then
        (let witness_length = unat (read_uint16_be bytes 11)
         in if length bytes mod 65536 < 13 + witness_length then (- 1, emit (Close t) s)
            else
              (let message_id = read_uint64_be bytes 1;
                   s1 = s\<lparr>cut_through_header_recv := (cut_through_header_recv s)((t, i) := True)\<rparr>
               in if message_id \<in> message_id_set s1 then (- 1, emit (CutThroughSendSkip t i) s1)
                  else
                    (let idx = unat (message_id_idx s1);
                         s2 = s1\<lparr>message_id_set := insert message_id (message_id_set s1),
                                 message_id_events := (message_id_events s1)
                                   [idx := message_id_events s1 ! idx @ [message_id]]\<rparr>;
                         s3 = fold (cut_through_subscribe E t i bytes witness_length) (sol_conns s2) s2;
                         s4 = fold (cut_through_subscribe E t i bytes witness_length) (unsol_conns s3) s3;
                         new_header = take (13 + witness_length) bytes @ own_static_pk E;
                         rest = cover bytes (13 + witness_length);
                         buf = write_uint16_be new_header 11 (of_nat (witness_length + 32));
                         (res, s5) = cut_through_forward E (t, i) buf s4
                     in if res < 0 then (- 1, s5)
                        else cut_through_forward E (t, i) rest s5)))
      else cut_through_forward E (t, i) bytes s)"

text \<open>Reading the effects: the bytes relayed to subscribers, and the cut-through streams opened.\<close>

fun relay_sent :: "event \<Rightarrow> (transport \<times> 16 word \<times> buffer) option" where
  "relay_sent (CutThroughSendBytes t i b) = Some (t, i, b)"
| "relay_sent e = None"

definition relay_sends :: "event list \<Rightarrow> (transport \<times> 16 word \<times> buffer) list" where
  "relay_sends es = List.map_filter relay_sent es"

fun relay_opened :: "event \<Rightarrow> transport option" where
  "relay_opened (CutThroughSendStart t len) = Some t"
| "relay_opened e = None"

definition relay_starts :: "event list \<Rightarrow> transport list" where
  "relay_starts es = List.map_filter relay_opened es"

text \<open>
  The witness of a first chunk as the list of its aligned 32-byte chunks, and the
  peers of a list that the loops admit: not the ingress transport, key not in the witness.
\<close>

definition witness_chunks :: "buffer \<Rightarrow> buffer list" where
  "witness_chunks bytes =
     map (\<lambda>j. take 32 (drop (13 + 32 * j) bytes)) [0..<unat (read_uint16_be bytes 11) div 32]"

definition admitted :: "transport \<Rightarrow> buffer \<Rightarrow> nat \<Rightarrow> transport list \<Rightarrow> transport set" where
  "admitted t bytes wl ts = {x \<in> set ts. x \<noteq> t \<and> \<not> pk_in_witness bytes wl x}"

text \<open>
  The header the spec describes for the relay, in the spec's words: the parsed header of
  13 + L bytes with the 2-byte witness length rewritten to L + 32 and this node's static
  public key after the witness.
\<close>

definition relayed_header :: "env \<Rightarrow> buffer \<Rightarrow> buffer" where
  "relayed_header E bytes =
     (let L = unat (read_uint16_be bytes 11)
      in take 11 bytes @ be_encode 2 (unat (of_nat (L + 32) :: 16 word))
           @ take L (drop 13 bytes) @ own_static_pk E)"

text \<open>The node after \<^verbatim>\<open>cut_through_recv_start\<close> and the first \<^verbatim>\<open>cut_through_recv_bytes\<close> of a session.\<close>

definition after_first_chunk :: "env \<Rightarrow> transport \<Rightarrow> 16 word \<Rightarrow> 64 word \<Rightarrow> buffer \<Rightarrow> node \<Rightarrow> node" where
  "after_first_chunk E t i len bytes s =
     snd (cut_through_recv_bytes E t i bytes (cut_through_recv_start t i len s))"




section \<open>Sequences of slot operations and invariants\<close>

datatype slot_op =
    AddSolConn transport
  | AddUnsolConn transport
  | AddSolStandbyConn transport
  | RemoveConn slot transport
  | DidRecvSUBSCRIBE transport buffer
  | DidClose transport

fun apply_op :: "env \<Rightarrow> slot_op \<Rightarrow> node \<Rightarrow> node" where
  "apply_op E (AddSolConn t) s = snd (add_sol_conn E t s)"
| "apply_op E (AddUnsolConn t) s = snd (add_unsol_conn E t s)"
| "apply_op E (AddSolStandbyConn t) s = snd (add_sol_standby_conn t s)"
| "apply_op E (RemoveConn k t) s = snd (remove_conn k t s)"
| "apply_op E (DidRecvSUBSCRIBE t bytes) s = snd (did_recv_SUBSCRIBE E t bytes s)"
| "apply_op E (DidClose t) s = did_close E t s"

definition run_ops :: "env \<Rightarrow> slot_op list \<Rightarrow> node \<Rightarrow> node" where
  "run_ops E ops s = fold (apply_op E) ops s"

definition caps_ok :: "env \<Rightarrow> node \<Rightarrow> bool" where
  "caps_ok E s = (length (sol_conns s) \<le> max_sol_conns E \<and> length (unsol_conns s) \<le> max_unsol_conns E)"

text \<open>The delegate's \<^verbatim>\<open>manage_subscriptions\<close> hands back a solicited set within the cap it was given.\<close>

definition delegate_keeps_cap :: "env \<Rightarrow> bool" where
  "delegate_keeps_cap E =
     (\<forall>sol standby. length sol \<le> max_sol_conns E \<longrightarrow>
        length (fst (manage_subscriptions E (max_sol_conns E) sol standby)) \<le> max_sol_conns E)"

text \<open>The spec's invariant "a transport occupies at most one slot".\<close>

definition one_slot :: "node \<Rightarrow> bool" where
  "one_slot s = (set (sol_conns s) \<inter> set (sol_standby_conns s) = {}
     \<and> set (sol_conns s) \<inter> set (unsol_conns s) = {}
     \<and> set (sol_standby_conns s) \<inter> set (unsol_conns s) = {})"

section \<open>Concrete nodes\<close>

definition peer :: "nat \<Rightarrow> transport" where
  "peer n = \<lparr>handle = n, dst_addr = 100 + n, remote_static_pk = replicate 32 (of_nat n)\<rparr>"

definition demo_env :: env where
  "demo_env = \<lparr>accept_unsol_conn = True, enable_relay = True,
     max_sol_conns = 1, max_unsol_conns = 1, channels = [7],
     get_transport = (\<lambda>a. if 100 < a then Some (peer (a - 100)) else None),
     is_active = (\<lambda>t. True),
     attester_parse_size = (\<lambda>b pos. 0),
     attester_verify = (\<lambda>message_id channel payload header. message_id \<noteq> 13),
     attester_attestation_size = (\<lambda>message_id channel payload header. 0),
     attester_attest = (\<lambda>message_id channel payload header m pos. m),
     witnesser_parse_size = (\<lambda>b pos. 0),
     witnesser_witness_size = (\<lambda>header. 0),
     witnesser_witness = (\<lambda>header m pos. m),
     cut_through_send_res = (\<lambda>es t m. 0),
     cut_through_send_start_res = (\<lambda>es t n. of_nat (length es + 1)),
     cut_through_send_bytes_res = (\<lambda>es t i b. 0),
     cut_through_used_ids = (\<lambda>t. []),
     manage_subscriptions = (\<lambda>cap sol standby. (sol, standby)),
     own_static_pk = replicate 32 9\<rparr>"

definition demo_node :: node where
  "demo_node = \<lparr>sol_conns = [], sol_standby_conns = [], unsol_conns = [],
     blacklist_addr = {}, message_id_events = replicate 256 [], message_id_idx = 0,
     message_id_set = {}, cut_through_map = (\<lambda>k. []), cut_through_length = (\<lambda>k. 0),
     cut_through_header_recv = (\<lambda>k. False), effects = []\<rparr>"

text \<open>
  A node reached by protocol steps: peer 2 subscribed to us (unsolicited), then peer 1
  was dialled and took the only solicited slot.
\<close>

definition crowded_node :: node where
  "crowded_node = run_ops demo_env [DidRecvSUBSCRIBE (peer 2) [0, 7], AddSolConn (peer 1)] demo_node"

text \<open>The same node with the address of peer 3 on the blacklist.\<close>

definition blocked_node :: node where
  "blocked_node = crowded_node\<lparr>blacklist_addr := {dst_addr (peer 3)}\<rparr>"

text \<open>The empty node after \<^verbatim>\<open>subscribe\<close> to the address of peer 3.\<close>

definition subscribed_node :: node where
  "subscribed_node = subscribe demo_env 103 (replicate 32 3) demo_node"

text \<open>Peer 1 solicited, peer 3 on standby, peer 2 unsolicited.\<close>

definition meshed_node :: node where
  "meshed_node = crowded_node\<lparr>sol_standby_conns := [peer 3]\<rparr>"

text \<open>A MESSAGE body (after the type byte): id 42, channel 7, payload 1 2 3.\<close>

definition demo_message :: "byte \<Rightarrow> buffer" where
  "demo_message i = [0, 0, 0, 0, 0, 0, 0, i, 0, 7, 1, 2, 3]"

text \<open>The default \<^verbatim>\<open>prev_header = {}\<close>.\<close>

definition no_header :: message_header where
  "no_header = \<lparr>attestation_data = [], attestation_size = 0, witness_data = [], witness_size = 0\<rparr>"

text \<open>
  A relay with room for three solicited peers: peers 1 and 4 solicited, peer 2
  unsolicited. The first chunk of a large message comes in from peer 4: type 3, id 42,
  channel 7, witness length 32, the witness (the key of peer 2), payload 1 2 3.
\<close>

definition relay_env :: env where
  "relay_env = demo_env\<lparr>max_sol_conns := 3\<rparr>"

definition relay_node :: node where
  "relay_node = demo_node\<lparr>sol_conns := [peer 1, peer 4], unsol_conns := [peer 2]\<rparr>"

definition demo_chunk :: buffer where
  "demo_chunk = [3, 0, 0, 0, 0, 0, 0, 0, 42, 0, 7, 0, 32] @ replicate 32 2 @ [1, 2, 3]"

text \<open>A delegate whose \<^verbatim>\<open>manage_subscriptions\<close> promotes every standby peer, whatever the cap.\<close>

definition greedy_env :: env where
  "greedy_env = demo_env\<lparr>manage_subscriptions := (\<lambda>cap sol standby. (sol @ standby, []))\<rparr>"



lemmas slot_defs = remove_conn_def add_sol_standby_conn_def add_unsol_conn_def add_sol_conn_def
  add_sol_conn_addr_def check_tranport_present_def check_tranport_in_set_def set_insert_def
  set_erase_def slot_get_def slot_put_def send_RESPONSE_def send_SUBSCRIBE_def emit_def
  did_recv_SUBSCRIBE_def run_ops_def demo_env_def demo_node_def peer_def

section \<open>Properties\<close>

subsection \<open>Slots\<close>

lemma remove_conn_slots:
  "sol_conns (snd (remove_conn k t s)) = (if k = Sol then removeAll t (sol_conns s) else sol_conns s)"
  "sol_standby_conns (snd (remove_conn k t s)) = (if k = Standby then removeAll t (sol_standby_conns s) else sol_standby_conns s)"
  "unsol_conns (snd (remove_conn k t s)) = (if k = Unsol then removeAll t (unsol_conns s) else unsol_conns s)"
  by (cases k; simp add: remove_conn_def slot_get_def slot_put_def set_erase_def
      check_tranport_in_set_def send_RESPONSE_def emit_def Let_def)+

lemma remove_conn_other:
  "blacklist_addr (snd (remove_conn k t s)) = blacklist_addr s"
  "message_id_set (snd (remove_conn k t s)) = message_id_set s"
  "cut_through_map (snd (remove_conn k t s)) = cut_through_map s"
  by (cases k; simp add: remove_conn_def slot_get_def slot_put_def set_erase_def
      check_tranport_in_set_def send_RESPONSE_def emit_def Let_def)+

lemma remove_conn_absent:
  "t \<notin> set (slot_get k s) \<Longrightarrow> remove_conn k t s = (False, s)"
  by (simp add: remove_conn_def check_tranport_in_set_def)

lemma fold_send_SUBSCRIBE_slots:
  "sol_conns (fold (\<lambda>channel. send_SUBSCRIBE t channel) cs s) = sol_conns s"
  "sol_standby_conns (fold (\<lambda>channel. send_SUBSCRIBE t channel) cs s) = sol_standby_conns s"
  "unsol_conns (fold (\<lambda>channel. send_SUBSCRIBE t channel) cs s) = unsol_conns s"
  "blacklist_addr (fold (\<lambda>channel. send_SUBSCRIBE t channel) cs s) = blacklist_addr s"
  by (induction cs arbitrary: s; simp add: send_SUBSCRIBE_def emit_def)+

lemma removeAll_cap: "length xs \<le> n \<Longrightarrow> length (removeAll t xs) \<le> n"
  by (rule le_trans [OF length_removeAll_less_eq])

lemma add_sol_standby_conn_slots:
  "sol_conns (snd (add_sol_standby_conn t s)) = sol_conns s"
  "unsol_conns (snd (add_sol_standby_conn t s)) = unsol_conns s"
  by (simp_all add: add_sol_standby_conn_def)

lemma add_sol_conn_caps: "caps_ok E s \<Longrightarrow> caps_ok E (snd (add_sol_conn E t s))"
  unfolding caps_ok_def add_sol_conn_def
  by (auto simp: Let_def add_sol_standby_conn_slots remove_conn_slots fold_send_SUBSCRIBE_slots
      send_RESPONSE_def emit_def set_insert_def removeAll_cap)

lemma add_unsol_conn_caps: "caps_ok E s \<Longrightarrow> caps_ok E (snd (add_unsol_conn E t s))"
  unfolding caps_ok_def add_unsol_conn_def
  by (auto simp: Let_def send_RESPONSE_def emit_def set_insert_def)

lemma add_sol_standby_conn_caps: "caps_ok E s \<Longrightarrow> caps_ok E (snd (add_sol_standby_conn t s))"
  unfolding caps_ok_def by (simp add: add_sol_standby_conn_slots)

lemma remove_conn_caps: "caps_ok E s \<Longrightarrow> caps_ok E (snd (remove_conn k t s))"
  unfolding caps_ok_def
  by (auto simp: remove_conn_slots removeAll_cap)

lemma caps_ok_blacklist [simp]: "caps_ok E (s\<lparr>blacklist_addr := b\<rparr>) = caps_ok E s"
  by (simp add: caps_ok_def)

lemma caps_ok_emit [simp]: "caps_ok E (emit e s) = caps_ok E s"
  by (simp add: caps_ok_def emit_def)

lemma did_recv_SUBSCRIBE_caps: "caps_ok E s \<Longrightarrow> caps_ok E (snd (did_recv_SUBSCRIBE E t bytes s))"
  unfolding did_recv_SUBSCRIBE_def
  by (simp add: Let_def add_sol_conn_caps add_unsol_conn_caps)

lemma flush_session_slots:
  "sol_conns (flush_session t i s) = sol_conns s"
  "sol_standby_conns (flush_session t i s) = sol_standby_conns s"
  "unsol_conns (flush_session t i s) = unsol_conns s"
proof -
  have "\<And>s. sol_conns (fold (\<lambda>(subscriber, subscriber_id). emit (CutThroughSendFlush subscriber subscriber_id)) xs s) = sol_conns s
    \<and> sol_standby_conns (fold (\<lambda>(subscriber, subscriber_id). emit (CutThroughSendFlush subscriber subscriber_id)) xs s) = sol_standby_conns s
    \<and> unsol_conns (fold (\<lambda>(subscriber, subscriber_id). emit (CutThroughSendFlush subscriber subscriber_id)) xs s) = unsol_conns s" for xs
    by (induction xs) (auto simp: emit_def)
  then show "sol_conns (flush_session t i s) = sol_conns s"
  "sol_standby_conns (flush_session t i s) = sol_standby_conns s"
  "unsol_conns (flush_session t i s) = unsol_conns s"
    by (simp_all add: flush_session_def Let_def)
qed

lemma fold_flush_session_slots:
  "sol_conns (fold (flush_session t) ids s) = sol_conns s"
  "sol_standby_conns (fold (flush_session t) ids s) = sol_standby_conns s"
  "unsol_conns (fold (flush_session t) ids s) = unsol_conns s"
  by (induction ids arbitrary: s; simp add: flush_session_slots)+

lemma did_close_caps:
  assumes "delegate_keeps_cap E" "caps_ok E s"
  shows "caps_ok E (did_close E t s)"
proof -
  have u: "length (unsol_conns (did_close E t s)) \<le> length (unsol_conns s)"
    by (simp add: did_close_def Let_def split_beta remove_conn_slots fold_flush_session_slots emit_def)
  have "\<exists>sol standby. sol_conns (did_close E t s) = fst (manage_subscriptions E (max_sol_conns E) sol standby)"
    by (simp add: did_close_def Let_def split_beta) blast
  then have "length (sol_conns (did_close E t s)) \<le> max_sol_conns E"
    using assms by (auto simp: delegate_keeps_cap_def caps_ok_def did_close_def Let_def split_beta
        remove_conn_slots fold_flush_session_slots emit_def removeAll_cap)
  with u assms(2) show ?thesis by (simp add: caps_ok_def)
qed

lemma apply_op_caps:
  "delegate_keeps_cap E \<Longrightarrow> caps_ok E s \<Longrightarrow> caps_ok E (apply_op E x s)"
  by (cases x) (simp_all add: add_sol_conn_caps add_unsol_conn_caps add_sol_standby_conn_caps
      remove_conn_caps did_recv_SUBSCRIBE_caps did_close_caps)

lemma run_ops_caps:
  "delegate_keeps_cap E \<Longrightarrow> caps_ok E s \<Longrightarrow> caps_ok E (run_ops E ops s)"
  unfolding run_ops_def
  by (induction ops arbitrary: s) (simp_all add: apply_op_caps)


lemma crowded_node_slots:
  "sol_conns crowded_node = [peer 1]" "sol_standby_conns crowded_node = []"
  "unsol_conns crowded_node = [peer 2]" "blacklist_addr crowded_node = {}"
  by (simp_all add: crowded_node_def slot_defs Let_def)

lemma add_sol_conn_full:
  "max_sol_conns E \<le> length (sol_conns s) \<Longrightarrow>
     add_sol_conn E t s = (False, if check_tranport_present s t then s
        else s\<lparr>sol_standby_conns := sol_standby_conns s @ [t]\<rparr>)"
  by (auto simp: add_sol_conn_def add_sol_standby_conn_def check_tranport_present_def
      check_tranport_in_set_def set_insert_def)

text \<open>
  C5 (amended). Provided the delegate's \<^verbatim>\<open>manage_subscriptions\<close> keeps the solicited
  set within the cap, \<open>|sol_conns| \<le> max_sol_conns\<close> and \<open>|unsol_conns| \<le> max_unsol_conns\<close>
  hold after any sequence of \<^verbatim>\<open>add_sol_conn\<close>, \<^verbatim>\<open>add_unsol_conn\<close>,
  \<^verbatim>\<open>add_sol_standby_conn\<close>, \<^verbatim>\<open>remove_conn\<close>, \<^verbatim>\<open>did_recv_SUBSCRIBE\<close> and
  \<^verbatim>\<open>did_close\<close> calls. \<^verbatim>\<open>add_sol_conn\<close> on a full solicited set returns false and
  leaves the solicited set as it is; a transport that is in no slot is appended to the
  standby set, a transport that is in some slot already stays where it is and the node
  is unchanged.
\<close>

theorem slot_caps_preserved:
  assumes "delegate_keeps_cap E" and "caps_ok E s"
  shows "caps_ok E (run_ops E ops s)
    \<and> (max_sol_conns E \<le> length (sol_conns s') \<longrightarrow>
          fst (add_sol_conn E t s') = False
        \<and> sol_conns (snd (add_sol_conn E t s')) = sol_conns s'
        \<and> snd (add_sol_conn E t s') =
            (if check_tranport_present s' t then s'
             else s'\<lparr>sol_standby_conns := sol_standby_conns s' @ [t]\<rparr>))"
  using run_ops_caps [OF assms] by (simp add: add_sol_conn_full)

lemma demo_delegate_keeps_cap: "delegate_keeps_cap demo_env"
  by (simp add: delegate_keeps_cap_def demo_env_def)

theorem slot_caps_preserved_witness:
  "delegate_keeps_cap demo_env \<and> caps_ok demo_env demo_node
   \<and> caps_ok demo_env (run_ops demo_env
        [DidRecvSUBSCRIBE (peer 2) [0, 7], AddSolConn (peer 1), AddSolConn (peer 3), DidClose (peer 1)]
        demo_node)
   \<and> max_sol_conns demo_env \<le> length (sol_conns crowded_node)
   \<and> fst (add_sol_conn demo_env (peer 3) crowded_node) = False
   \<and> sol_conns (snd (add_sol_conn demo_env (peer 3) crowded_node)) = [peer 1]
   \<and> sol_standby_conns (snd (add_sol_conn demo_env (peer 3) crowded_node)) = [peer 3]"
proof -
  have c: "caps_ok demo_env demo_node"
    by (simp add: caps_ok_def demo_node_def)
  have f: "max_sol_conns demo_env \<le> length (sol_conns crowded_node)"
    by (simp add: crowded_node_slots demo_env_def)
  have p: "\<not> check_tranport_present crowded_node (peer 3)"
    by (simp add: check_tranport_present_def check_tranport_in_set_def crowded_node_slots peer_def)
  show ?thesis
    using slot_caps_preserved [OF demo_delegate_keeps_cap c, of _ crowded_node "peer 3"] f p c
      demo_delegate_keeps_cap
    by (simp add: crowded_node_slots)
qed

text \<open>
  C5 as stated fails: peer 2 is unsolicited, the solicited set is full, and
  \<^verbatim>\<open>add_sol_conn\<close> for peer 2 does not place it into the standby set. And with a
  delegate that promotes every standby peer, \<^verbatim>\<open>did_close\<close> leaves two peers in a
  solicited set of capacity one.
\<close>

theorem add_sol_conn_full_counterexample:
  "max_sol_conns demo_env \<le> length (sol_conns crowded_node)
   \<and> peer 2 \<notin> set (sol_standby_conns (snd (add_sol_conn demo_env (peer 2) crowded_node)))
   \<and> peer 2 \<in> set (unsol_conns (snd (add_sol_conn demo_env (peer 2) crowded_node)))
   \<and> caps_ok greedy_env meshed_node
   \<and> \<not> caps_ok greedy_env (did_close greedy_env (peer 2) meshed_node)"
proof -
  have f: "max_sol_conns demo_env \<le> length (sol_conns crowded_node)"
    by (simp add: crowded_node_slots demo_env_def)
  have p: "check_tranport_present crowded_node (peer 2)"
    by (simp add: check_tranport_present_def check_tranport_in_set_def crowded_node_slots)
  have m: "sol_conns meshed_node = [peer 1]" "sol_standby_conns meshed_node = [peer 3]"
    "unsol_conns meshed_node = [peer 2]"
    by (simp_all add: meshed_node_def crowded_node_slots)
  have g: "max_sol_conns greedy_env = 1" "max_unsol_conns greedy_env = 1"
    "manage_subscriptions greedy_env = (\<lambda>cap sol standby. (sol @ standby, []))"
    by (simp_all add: greedy_env_def demo_env_def)
  have c: "caps_ok greedy_env meshed_node"
    by (simp add: caps_ok_def m g)
  have q: "peer 2 \<noteq> peer 1" "peer 2 \<noteq> peer 3" by (simp_all add: peer_def)
  have "sol_conns (did_close greedy_env (peer 2) meshed_node) = [peer 1, peer 3]"
    using q
    by (simp add: did_close_def Let_def split_beta remove_conn_slots fold_flush_session_slots
        emit_def m g)
  then have d: "\<not> caps_ok greedy_env (did_close greedy_env (peer 2) meshed_node)"
    by (simp add: caps_ok_def g)
  show ?thesis
    using f p c d by (simp add: add_sol_conn_full crowded_node_slots)
qed


lemma add_unsol_conn_cases:
  "add_unsol_conn E t s =
     (if max_unsol_conns E \<le> length (unsol_conns s) \<or> check_tranport_present s t then (False, s)
      else (True, send_RESPONSE t True ''SUBSCRIBED'' (s\<lparr>unsol_conns := unsol_conns s @ [t]\<rparr>)))"
  by (auto simp: add_unsol_conn_def Let_def set_insert_def check_tranport_present_def
      check_tranport_in_set_def)

text \<open>
  C6 (amended). With \<^verbatim>\<open>accept_unsol_conn\<close> and a sender that is not blacklisted:
  a sender that is already in a slot is left there, nothing is closed and the call
  returns 0; a sender in no slot is installed into the unsolicited set (with a RESPONSE)
  and the call returns 0 when that set has room; when the unsolicited set is full the
  sender's transport is closed and the call returns -1.
\<close>

theorem did_recv_SUBSCRIBE_unsolicited:
  assumes "accept_unsol_conn E" and "dst_addr t \<notin> blacklist_addr s"
  shows "did_recv_SUBSCRIBE E t bytes s =
    (if check_tranport_present s t then (0, s)
     else if max_unsol_conns E \<le> length (unsol_conns s) then (- 1, emit (Close t) s)
     else (0, send_RESPONSE t True ''SUBSCRIBED'' (s\<lparr>unsol_conns := unsol_conns s @ [t]\<rparr>)))"
  using assms
  by (simp add: did_recv_SUBSCRIBE_def add_unsol_conn_cases Let_def)
     (simp add: check_tranport_present_def check_tranport_in_set_def send_RESPONSE_def emit_def)

theorem did_recv_SUBSCRIBE_unsolicited_witness:
  "accept_unsol_conn demo_env \<and> dst_addr (peer 1) \<notin> blacklist_addr crowded_node
   \<and> check_tranport_present crowded_node (peer 1)
   \<and> did_recv_SUBSCRIBE demo_env (peer 1) [0, 7] crowded_node = (0, crowded_node)
   \<and> \<not> check_tranport_present crowded_node (peer 3)
   \<and> did_recv_SUBSCRIBE demo_env (peer 3) [0, 7] crowded_node = (- 1, emit (Close (peer 3)) crowded_node)
   \<and> \<not> check_tranport_present demo_node (peer 3)
   \<and> did_recv_SUBSCRIBE demo_env (peer 3) [0, 7] demo_node =
       (0, send_RESPONSE (peer 3) True ''SUBSCRIBED'' (demo_node\<lparr>unsol_conns := [peer 3]\<rparr>))"
proof -
  have a: "accept_unsol_conn demo_env" by (simp add: demo_env_def)
  have b: "dst_addr (peer 1) \<notin> blacklist_addr crowded_node"
    "dst_addr (peer 3) \<notin> blacklist_addr crowded_node"
    "dst_addr (peer 3) \<notin> blacklist_addr demo_node"
    by (simp_all add: crowded_node_slots demo_node_def)
  have p: "check_tranport_present crowded_node (peer 1)"
    "\<not> check_tranport_present crowded_node (peer 3)"
    "\<not> check_tranport_present demo_node (peer 3)"
    by (simp_all add: check_tranport_present_def check_tranport_in_set_def crowded_node_slots
        peer_def demo_node_def)
  have m: "max_unsol_conns demo_env \<le> length (unsol_conns crowded_node)"
    "\<not> max_unsol_conns demo_env \<le> length (unsol_conns demo_node)"
    "unsol_conns demo_node = []"
    by (simp_all add: crowded_node_slots demo_env_def demo_node_def)
  show ?thesis
    using did_recv_SUBSCRIBE_unsolicited [OF a b(1), of "[0, 7]"]
      did_recv_SUBSCRIBE_unsolicited [OF a b(2), of "[0, 7]"]
      did_recv_SUBSCRIBE_unsolicited [OF a b(3), of "[0, 7]"] a b p m
    by simp
qed

text \<open>
  C6 as stated fails: a SUBSCRIBE from peer 1, which is in the solicited set, returns 0
  and closes nothing; a SUBSCRIBE from peer 3, which is in no slot, returns -1 and
  installs nothing, because the unsolicited set is full.
\<close>

theorem did_recv_SUBSCRIBE_present_counterexample:
  "accept_unsol_conn demo_env \<and> dst_addr (peer 1) \<notin> blacklist_addr crowded_node
   \<and> peer 1 \<in> set (sol_conns crowded_node)
   \<and> fst (did_recv_SUBSCRIBE demo_env (peer 1) [0, 7] crowded_node) = 0
   \<and> Close (peer 1) \<notin> set (effects (snd (did_recv_SUBSCRIBE demo_env (peer 1) [0, 7] crowded_node)))
   \<and> dst_addr (peer 3) \<notin> blacklist_addr crowded_node
   \<and> \<not> check_tranport_present crowded_node (peer 3)
   \<and> fst (did_recv_SUBSCRIBE demo_env (peer 3) [0, 7] crowded_node) = - 1
   \<and> peer 3 \<notin> set (unsol_conns (snd (did_recv_SUBSCRIBE demo_env (peer 3) [0, 7] crowded_node)))"
proof -
  have n: "\<not> check_tranport_present crowded_node (peer 3)"
    by (simp add: check_tranport_present_def check_tranport_in_set_def crowded_node_slots peer_def)
  have r3: "did_recv_SUBSCRIBE demo_env (peer 3) [0, 7] crowded_node
      = (- 1, emit (Close (peer 3)) crowded_node)"
    using n
    by (simp add: did_recv_SUBSCRIBE_def add_unsol_conn_cases crowded_node_slots demo_env_def)
  have u: "peer 3 \<notin> set (unsol_conns (emit (Close (peer 3)) crowded_node))"
    by (simp add: emit_def crowded_node_slots peer_def)
  have e: "effects crowded_node =
      [Send (peer 2) ([2, 1] @ bytes_of_string ''SUBSCRIBED''),
       Send (peer 1) (write_uint16_be [0, 0, 0] 1 7),
       Send (peer 1) ([2, 1] @ bytes_of_string ''SUBSCRIBED'')]"
    by (simp add: crowded_node_def slot_defs Let_def)
  have r: "did_recv_SUBSCRIBE demo_env (peer 1) [0, 7] crowded_node = (0, crowded_node)"
    by (simp add: did_recv_SUBSCRIBE_def add_unsol_conn_cases check_tranport_present_def
        check_tranport_in_set_def crowded_node_slots demo_env_def peer_def)
  have a: "accept_unsol_conn demo_env" by (simp add: demo_env_def)
  show ?thesis
    using r e a n u by (simp add: r3 crowded_node_slots)
qed

lemma add_sol_conn_blacklist:
  "blacklist_addr (snd (add_sol_conn E t s)) = blacklist_addr s"
  by (simp add: add_sol_conn_def add_sol_standby_conn_def Let_def remove_conn_other
      fold_send_SUBSCRIBE_slots send_RESPONSE_def emit_def)

lemma add_sol_conn_room:
  "length (sol_conns s) < max_sol_conns E \<Longrightarrow> t \<in> set (sol_conns (snd (add_sol_conn E t s)))"
  by (auto simp: add_sol_conn_def Let_def remove_conn_slots fold_send_SUBSCRIBE_slots
      send_RESPONSE_def emit_def set_insert_def check_tranport_present_def check_tranport_in_set_def)

text \<open>
  C7 (amended). With \<^verbatim>\<open>accept_unsol_conn\<close> and a blacklisted sender, the address
  leaves the blacklist, the call is \<^verbatim>\<open>add_sol_conn\<close> on the sender's transport and
  returns 0. The transport is in the solicited set afterwards when that set had room;
  when it was at capacity the solicited set is unchanged and the transport goes to the
  standby set (unless it is in a slot already).
\<close>

theorem did_recv_SUBSCRIBE_blacklisted:
  assumes "accept_unsol_conn E" and "dst_addr t \<in> blacklist_addr s"
  shows "did_recv_SUBSCRIBE E t bytes s =
           (0, snd (add_sol_conn E t (s\<lparr>blacklist_addr := blacklist_addr s - {dst_addr t}\<rparr>)))
    \<and> dst_addr t \<notin> blacklist_addr (snd (did_recv_SUBSCRIBE E t bytes s))
    \<and> (length (sol_conns s) < max_sol_conns E \<longrightarrow>
          t \<in> set (sol_conns (snd (did_recv_SUBSCRIBE E t bytes s))))
    \<and> (max_sol_conns E \<le> length (sol_conns s) \<longrightarrow>
          sol_conns (snd (did_recv_SUBSCRIBE E t bytes s)) = sol_conns s
        \<and> sol_standby_conns (snd (did_recv_SUBSCRIBE E t bytes s)) =
            (if check_tranport_present s t then sol_standby_conns s else sol_standby_conns s @ [t]))"
proof -
  let ?s1 = "s\<lparr>blacklist_addr := blacklist_addr s - {dst_addr t}\<rparr>"
  have r: "did_recv_SUBSCRIBE E t bytes s = (0, snd (add_sol_conn E t ?s1))"
    using assms by (simp add: did_recv_SUBSCRIBE_def Let_def)
  have p: "check_tranport_present ?s1 t = check_tranport_present s t"
    by (simp add: check_tranport_present_def)
  have room: "length (sol_conns s) < max_sol_conns E \<Longrightarrow> t \<in> set (sol_conns (snd (add_sol_conn E t ?s1)))"
    using add_sol_conn_room [of ?s1 E t] by simp
  have full: "max_sol_conns E \<le> length (sol_conns s) \<Longrightarrow>
      add_sol_conn E t ?s1 = (False, if check_tranport_present s t then ?s1
        else ?s1\<lparr>sol_standby_conns := sol_standby_conns s @ [t]\<rparr>)"
    using add_sol_conn_full [of E ?s1 t] p by simp
  show ?thesis
    using room full by (simp add: r add_sol_conn_blacklist)
qed

theorem did_recv_SUBSCRIBE_blacklisted_witness:
  "accept_unsol_conn demo_env \<and> dst_addr (peer 3) \<in> blacklist_addr blocked_node
   \<and> max_sol_conns demo_env \<le> length (sol_conns blocked_node)
   \<and> fst (did_recv_SUBSCRIBE demo_env (peer 3) [0, 7] blocked_node) = 0
   \<and> dst_addr (peer 3) \<notin> blacklist_addr (snd (did_recv_SUBSCRIBE demo_env (peer 3) [0, 7] blocked_node))
   \<and> sol_conns (snd (did_recv_SUBSCRIBE demo_env (peer 3) [0, 7] blocked_node)) = [peer 1]
   \<and> sol_standby_conns (snd (did_recv_SUBSCRIBE demo_env (peer 3) [0, 7] blocked_node)) = [peer 3]
   \<and> dst_addr (peer 3) \<in> blacklist_addr (demo_node\<lparr>blacklist_addr := {dst_addr (peer 3)}\<rparr>)
   \<and> length (sol_conns (demo_node\<lparr>blacklist_addr := {dst_addr (peer 3)}\<rparr>)) < max_sol_conns demo_env
   \<and> peer 3 \<in> set (sol_conns (snd (did_recv_SUBSCRIBE demo_env (peer 3) [0, 7]
        (demo_node\<lparr>blacklist_addr := {dst_addr (peer 3)}\<rparr>))))"
proof -
  have a: "accept_unsol_conn demo_env" by (simp add: demo_env_def)
  have b: "dst_addr (peer 3) \<in> blacklist_addr blocked_node"
    "dst_addr (peer 3) \<in> blacklist_addr (demo_node\<lparr>blacklist_addr := {dst_addr (peer 3)}\<rparr>)"
    by (simp_all add: blocked_node_def)
  have f: "max_sol_conns demo_env \<le> length (sol_conns blocked_node)"
    "length (sol_conns (demo_node\<lparr>blacklist_addr := {dst_addr (peer 3)}\<rparr>)) < max_sol_conns demo_env"
    by (simp_all add: blocked_node_def crowded_node_slots demo_env_def demo_node_def)
  have p: "\<not> check_tranport_present blocked_node (peer 3)"
    by (simp add: check_tranport_present_def check_tranport_in_set_def blocked_node_def
        crowded_node_slots peer_def)
  have sl: "sol_conns blocked_node = [peer 1]" "sol_standby_conns blocked_node = []"
    by (simp_all add: blocked_node_def crowded_node_slots)
  show ?thesis
    using did_recv_SUBSCRIBE_blacklisted [OF a b(1), of "[0, 7]"]
      did_recv_SUBSCRIBE_blacklisted [OF a b(2), of "[0, 7]"] a b f p sl
    by (elim conjE) simp
qed

text \<open>
  C7 as stated fails: with the solicited set at capacity, the blacklisted sender peer 3
  is not in the solicited set after its SUBSCRIBE.
\<close>

theorem did_recv_SUBSCRIBE_blacklisted_counterexample:
  "accept_unsol_conn demo_env \<and> dst_addr (peer 3) \<in> blacklist_addr blocked_node
   \<and> length (sol_conns blocked_node) = max_sol_conns demo_env
   \<and> peer 3 \<notin> set (sol_conns (snd (did_recv_SUBSCRIBE demo_env (peer 3) [0, 7] blocked_node)))"
proof -
  have s: "add_sol_conn demo_env (peer 3) (blocked_node\<lparr>blacklist_addr := blacklist_addr blocked_node - {dst_addr (peer 3)}\<rparr>)
      = (False, blocked_node\<lparr>blacklist_addr := blacklist_addr blocked_node - {dst_addr (peer 3)}, sol_standby_conns := [peer 3]\<rparr>)"
    by (simp add: add_sol_conn_full blocked_node_def crowded_node_slots demo_env_def
        check_tranport_present_def check_tranport_in_set_def peer_def)
  show ?thesis
    by (simp add: did_recv_SUBSCRIBE_def Let_def s)
       (simp add: blocked_node_def crowded_node_slots demo_env_def peer_def)
qed

subsection \<open>subscribe and the address overload\<close>

lemma add_sol_conn_settled:
  assumes "t \<in> set (sol_conns s)" "t \<notin> set (sol_standby_conns s)" "t \<notin> set (unsol_conns s)"
  shows "add_sol_conn E t s = (False, s)"
  using assms
  by (simp add: add_sol_conn_def add_sol_standby_conn_def Let_def remove_conn_absent slot_get_def
      check_tranport_present_def check_tranport_in_set_def)

lemma add_sol_conn_twice:
  "snd (add_sol_conn E t (snd (add_sol_conn E t s))) = snd (add_sol_conn E t s)"
proof (cases "max_sol_conns E \<le> length (sol_conns s)")
  case True
  then show ?thesis
    by (simp add: add_sol_conn_full check_tranport_present_def check_tranport_in_set_def)
next
  case False
  let ?s' = "snd (add_sol_conn E t s)"
  have in_sol: "t \<in> set (sol_conns ?s')"
    using False add_sol_conn_room [of s E t] by simp
  have out: "t \<notin> set (sol_standby_conns ?s')" "t \<notin> set (unsol_conns ?s')"
    using False
    by (auto simp: add_sol_conn_def Let_def remove_conn_slots fold_send_SUBSCRIBE_slots
        send_RESPONSE_def emit_def)
  show ?thesis
  proof (cases "max_sol_conns E \<le> length (sol_conns ?s')")
    case True
    then show ?thesis
      using in_sol by (simp add: add_sol_conn_full check_tranport_present_def check_tranport_in_set_def)
  next
    case False
    show ?thesis using add_sol_conn_settled [OF in_sol out] by simp
  qed
qed

text \<open>
  C9. \<^verbatim>\<open>subscribe\<close> for a blacklisted address changes nothing and sends nothing.
  \<^verbatim>\<open>subscribe\<close> for an address whose transport is active and occupies the solicited
  slot (and, by the one-slot invariant, no other) changes nothing and sends nothing.
  For an address the factory has a transport for, a second \<^verbatim>\<open>subscribe\<close> right
  after the first leaves the node as the first one left it.
\<close>

theorem subscribe_idempotent:
  "(addr \<in> blacklist_addr s \<longrightarrow> subscribe E addr pk s = s)
 \<and> (get_transport E addr = Some t \<and> is_active E t \<and> t \<in> set (sol_conns s)
      \<and> t \<notin> set (sol_standby_conns s) \<and> t \<notin> set (unsol_conns s)
      \<longrightarrow> subscribe E addr pk s = s)
 \<and> (get_transport E addr = Some t
      \<longrightarrow> subscribe E addr pk (subscribe E addr pk s) = subscribe E addr pk s)"
proof (intro conjI impI)
  assume "addr \<in> blacklist_addr s"
  then show "subscribe E addr pk s = s" by (simp add: subscribe_def)
next
  assume a: "get_transport E addr = Some t \<and> is_active E t \<and> t \<in> set (sol_conns s)
      \<and> t \<notin> set (sol_standby_conns s) \<and> t \<notin> set (unsol_conns s)"
  then have "add_sol_conn E t s = (False, s)" by (simp add: add_sol_conn_settled)
  with a show "subscribe E addr pk s = s" by (simp add: subscribe_def)
next
  assume g: "get_transport E addr = Some t"
  show "subscribe E addr pk (subscribe E addr pk s) = subscribe E addr pk s"
    using g by (simp add: subscribe_def add_sol_conn_blacklist add_sol_conn_twice)
qed

lemma subscribed_node_slots:
  "sol_conns subscribed_node = [peer 3]" "sol_standby_conns subscribed_node = []"
  "unsol_conns subscribed_node = []" "blacklist_addr subscribed_node = {}"
  by (simp_all add: subscribed_node_def subscribe_def slot_defs Let_def)

theorem subscribe_idempotent_witness:
  "dst_addr (peer 3) \<in> blacklist_addr blocked_node
   \<and> subscribe demo_env (dst_addr (peer 3)) (replicate 32 3) blocked_node = blocked_node
   \<and> get_transport demo_env 103 = Some (peer 3) \<and> is_active demo_env (peer 3)
   \<and> peer 3 \<in> set (sol_conns subscribed_node)
   \<and> peer 3 \<notin> set (sol_standby_conns subscribed_node)
   \<and> peer 3 \<notin> set (unsol_conns subscribed_node)
   \<and> subscribe demo_env 103 (replicate 32 3) subscribed_node = subscribed_node
   \<and> effects subscribed_node \<noteq> []
   \<and> subscribe demo_env 103 (replicate 32 3) (subscribe demo_env 103 (replicate 32 3) crowded_node)
       = subscribe demo_env 103 (replicate 32 3) crowded_node"
proof -
  have b: "dst_addr (peer 3) \<in> blacklist_addr blocked_node" by (simp add: blocked_node_def)
  have g: "get_transport demo_env 103 = Some (peer 3)" "is_active demo_env (peer 3)"
    by (simp_all add: demo_env_def)
  have e: "effects subscribed_node \<noteq> []"
    by (simp add: subscribed_node_def subscribe_def slot_defs Let_def)
  note th1 = subscribe_idempotent [of "dst_addr (peer 3)" blocked_node demo_env "replicate 32 3" "peer 3"]
  note th2 = subscribe_idempotent [of 103 subscribed_node demo_env "replicate 32 3" "peer 3"]
  note th3 = subscribe_idempotent [of 103 crowded_node demo_env "replicate 32 3" "peer 3"]
  have 1: "subscribe demo_env (dst_addr (peer 3)) (replicate 32 3) blocked_node = blocked_node"
    using th1 b by blast
  have 2: "subscribe demo_env 103 (replicate 32 3) subscribed_node = subscribed_node"
    using th2 g by (simp add: subscribed_node_slots)
  have 3: "subscribe demo_env 103 (replicate 32 3) (subscribe demo_env 103 (replicate 32 3) crowded_node)
       = subscribe demo_env 103 (replicate 32 3) crowded_node"
    using th3 g by blast
  show ?thesis using b g e 1 2 3 by (simp add: subscribed_node_slots)
qed

lemma add_sol_conn_addr_return:
  "fst (add_sol_conn_addr E addr s) = (case get_transport E addr of None \<Rightarrow> Some False | Some t \<Rightarrow> None)"
  by (simp add: add_sol_conn_addr_def split: option.split)

text \<open>
  C10. The address overload of \<^verbatim>\<open>add_sol_conn\<close> returns false when the lookup
  finds no transport. When the lookup succeeds the transport is handed to
  \<^verbatim>\<open>add_sol_conn(*transport)\<close> and the function ends without returning a value.
\<close>

theorem add_sol_conn_addr_no_return_value:
  "get_transport demo_env 103 = Some (peer 3)
   \<and> fst (add_sol_conn_addr demo_env 103 demo_node) = None
   \<and> sol_conns (snd (add_sol_conn_addr demo_env 103 demo_node)) = [peer 3]
   \<and> add_sol_conn_addr demo_env 7 demo_node = (Some False, demo_node)"
  by (simp add: add_sol_conn_addr_def slot_defs Let_def)

subsection \<open>Fan-out of a message\<close>

lemma message_sends_append [simp]: "message_sends (xs @ ys) = message_sends xs @ message_sends ys"
  by (simp add: message_sends_def List.map_filter_def)

lemma message_sends_simps [simp]:
  "message_sends [] = []"
  "message_sends (Send t m # es) = (t, False, m) # message_sends es"
  "message_sends (CutThroughSend t m # es) = (t, True, m) # message_sends es"
  "message_sends (Close t # es) = message_sends es"
  by (auto simp: message_sends_def List.map_filter_def)

lemma send_check_effects:
  "\<exists>es. send_message_with_cut_through_check E t channel message_id data prev_header s
          = s\<lparr>effects := effects s @ es\<rparr>
      \<and> message_sends es = [(t, 50000 < length data, create_MESSAGE E channel message_id data prev_header)]
      \<and> list_all (is_send_effect (create_MESSAGE E channel message_id data prev_header)) es
      \<and> (length data \<le> 50000 \<longrightarrow> es = [Send t (create_MESSAGE E channel message_id data prev_header)])"
  by (auto simp: send_message_with_cut_through_check_def send_MESSAGE_def emit_def Let_def)

lemma fold_send_effects:
  "\<exists>es. fold (send_unless_excluded E channel message_id data excluded prev_header) ts s
          = s\<lparr>effects := effects s @ es\<rparr>
      \<and> message_sends es = map (\<lambda>t. (t, 50000 < length data, create_MESSAGE E channel message_id data prev_header))
            (filter (\<lambda>t. \<not> is_excluded excluded t) ts)
      \<and> list_all (is_send_effect (create_MESSAGE E channel message_id data prev_header)) es
      \<and> (length data \<le> 50000 \<longrightarrow> es = map (\<lambda>t. Send t (create_MESSAGE E channel message_id data prev_header))
            (filter (\<lambda>t. \<not> is_excluded excluded t) ts))"
proof (induction ts arbitrary: s)
  case Nil
  show ?case by (rule exI [of _ "[]"]) simp
next
  case (Cons t ts)
  let ?m = "create_MESSAGE E channel message_id data prev_header"
  let ?step = "send_unless_excluded E channel message_id data excluded prev_header"
  show ?case
  proof (cases "is_excluded excluded t")
    case True
    then have "fold ?step (t # ts) s = fold ?step ts s"
      by (simp add: send_unless_excluded_def)
    with Cons.IH [of s] True show ?thesis by simp
  next
    case False
    obtain es1 where 1: "?step t s = s\<lparr>effects := effects s @ es1\<rparr>"
      and m1: "message_sends es1 = [(t, 50000 < length data, ?m)]"
      and a1: "list_all (is_send_effect ?m) es1"
      and b1: "length data \<le> 50000 \<longrightarrow> es1 = [Send t ?m]"
      using send_check_effects [of E t channel message_id data prev_header s] False
      by (auto simp: send_unless_excluded_def)
    obtain es2 where 2: "fold ?step ts (?step t s) = (?step t s)\<lparr>effects := effects (?step t s) @ es2\<rparr>"
      and m2: "message_sends es2 = map (\<lambda>t. (t, 50000 < length data, ?m)) (filter (\<lambda>t. \<not> is_excluded excluded t) ts)"
      and a2: "list_all (is_send_effect ?m) es2"
      and b2: "length data \<le> 50000 \<longrightarrow> es2 = map (\<lambda>t. Send t ?m) (filter (\<lambda>t. \<not> is_excluded excluded t) ts)"
      using Cons.IH [of "?step t s"] by blast
    have "fold ?step (t # ts) s = s\<lparr>effects := effects s @ (es1 @ es2)\<rparr>"
      using 2 by (simp add: 1)
    then show ?thesis
      using m1 m2 a1 a2 b1 b2 False by (intro exI [of _ "es1 @ es2"]) simp
  qed
qed

lemma send_message_on_channel_effects:
  "\<exists>es. send_message_on_channel E channel message_id data excluded prev_header s
          = s\<lparr>effects := effects s @ es\<rparr>
      \<and> message_sends es = map (\<lambda>t. (t, 50000 < length data, create_MESSAGE E channel message_id data prev_header))
            (filter (\<lambda>t. \<not> is_excluded excluded t) (sol_conns s @ unsol_conns s))
      \<and> list_all (is_send_effect (create_MESSAGE E channel message_id data prev_header)) es
      \<and> (length data \<le> 50000 \<longrightarrow> es = map (\<lambda>t. Send t (create_MESSAGE E channel message_id data prev_header))
            (filter (\<lambda>t. \<not> is_excluded excluded t) (sol_conns s @ unsol_conns s)))"
proof -
  let ?m = "create_MESSAGE E channel message_id data prev_header"
  let ?step = "send_unless_excluded E channel message_id data excluded prev_header"
  let ?ok = "\<lambda>t. \<not> is_excluded excluded t"
  obtain es1 where 1: "fold ?step (sol_conns s) s = s\<lparr>effects := effects s @ es1\<rparr>"
    and m1: "message_sends es1 = map (\<lambda>t. (t, 50000 < length data, ?m)) (filter ?ok (sol_conns s))"
    and a1: "list_all (is_send_effect ?m) es1"
    and b1: "length data \<le> 50000 \<longrightarrow> es1 = map (\<lambda>t. Send t ?m) (filter ?ok (sol_conns s))"
    using fold_send_effects [of E channel message_id data excluded prev_header "sol_conns s" s] by blast
  let ?s1 = "s\<lparr>effects := effects s @ es1\<rparr>"
  obtain es2 where 2: "fold ?step (unsol_conns s) ?s1 = ?s1\<lparr>effects := effects ?s1 @ es2\<rparr>"
    and m2: "message_sends es2 = map (\<lambda>t. (t, 50000 < length data, ?m)) (filter ?ok (unsol_conns s))"
    and a2: "list_all (is_send_effect ?m) es2"
    and b2: "length data \<le> 50000 \<longrightarrow> es2 = map (\<lambda>t. Send t ?m) (filter ?ok (unsol_conns s))"
    using fold_send_effects [of E channel message_id data excluded prev_header "unsol_conns s" ?s1] by blast
  have "send_message_on_channel E channel message_id data excluded prev_header s
      = s\<lparr>effects := effects s @ (es1 @ es2)\<rparr>"
    using 2 by (simp add: send_message_on_channel_def Let_def 1)
  then show ?thesis
    using m1 m2 a1 a2 b1 b2 by (intro exI [of _ "es1 @ es2"]) simp
qed


text \<open>
  C2. \<^verbatim>\<open>send_message_on_channel\<close> changes nothing in the node but the effects. The MESSAGE
  buffers it hands to transports go, in order, to exactly the transports of the
  solicited set followed by the unsolicited set that are not excluded (\<open>excluded\<close> is
  null, or the transport's \<open>dst_addr\<close> differs): each gets the buffer of
  \<^verbatim>\<open>create_MESSAGE\<close>, by \<^verbatim>\<open>cut_through_send\<close> when the size is above 50000 and by
  \<^verbatim>\<open>send\<close> otherwise. Every effect is such a send or the close after a failed
  cut-through send; for a size up to 50000 the effects are exactly the sends. A standby
  transport (in neither of the two sets) gets nothing.
\<close>

theorem send_message_on_channel_recipients:
  "send_message_on_channel E channel message_id data excluded prev_header s
     = s\<lparr>effects := effects s
          @ new_effects s (send_message_on_channel E channel message_id data excluded prev_header s)\<rparr>
   \<and> message_sends (new_effects s (send_message_on_channel E channel message_id data excluded prev_header s))
       = map (\<lambda>t. (t, 50000 < length data, create_MESSAGE E channel message_id data prev_header))
           (filter (\<lambda>t. \<not> is_excluded excluded t) (sol_conns s @ unsol_conns s))
   \<and> list_all (is_send_effect (create_MESSAGE E channel message_id data prev_header))
        (new_effects s (send_message_on_channel E channel message_id data excluded prev_header s))
   \<and> (length data \<le> 50000 \<longrightarrow>
        new_effects s (send_message_on_channel E channel message_id data excluded prev_header s)
          = map (\<lambda>t. Send t (create_MESSAGE E channel message_id data prev_header))
              (filter (\<lambda>t. \<not> is_excluded excluded t) (sol_conns s @ unsol_conns s)))
   \<and> (\<forall>t \<in> set (sol_standby_conns s). t \<notin> set (sol_conns s) \<and> t \<notin> set (unsol_conns s) \<longrightarrow>
        t \<notin> fst ` set (message_sends
          (new_effects s (send_message_on_channel E channel message_id data excluded prev_header s))))"
proof -
  let ?s' = "send_message_on_channel E channel message_id data excluded prev_header s"
  obtain es where e: "?s' = s\<lparr>effects := effects s @ es\<rparr>"
    and m: "message_sends es = map (\<lambda>t. (t, 50000 < length data, create_MESSAGE E channel message_id data prev_header))
            (filter (\<lambda>t. \<not> is_excluded excluded t) (sol_conns s @ unsol_conns s))"
    and a: "list_all (is_send_effect (create_MESSAGE E channel message_id data prev_header)) es"
    and b: "length data \<le> 50000 \<longrightarrow> es = map (\<lambda>t. Send t (create_MESSAGE E channel message_id data prev_header))
            (filter (\<lambda>t. \<not> is_excluded excluded t) (sol_conns s @ unsol_conns s))"
    using send_message_on_channel_effects [of E channel message_id data excluded prev_header s] by blast
  have n: "new_effects s ?s' = es"
    by (simp add: new_effects_def e)
  have f: "fst ` set (message_sends es) \<subseteq> set (sol_conns s) \<union> set (unsol_conns s)"
    by (auto simp: m)
  show ?thesis
    unfolding n using e m a b f by auto
qed


lemma meshed_node_slots:
  "sol_conns meshed_node = [peer 1]" "sol_standby_conns meshed_node = [peer 3]"
  "unsol_conns meshed_node = [peer 2]" "blacklist_addr meshed_node = {}"
  "message_id_set meshed_node = {}"
  by (simp_all add: meshed_node_def crowded_node_slots)
     (simp add: crowded_node_def slot_defs Let_def)

text \<open>
  Peer 1 solicited, peer 3 standby, peer 2 unsolicited: with peer 2 excluded a small
  message goes to peer 1 only; with nobody excluded a message of 50001 bytes goes to
  peers 1 and 2 by cut-through.
\<close>

theorem send_message_on_channel_recipients_witness:
  "length [1, 2, 3 :: byte] \<le> 50000
   \<and> new_effects meshed_node (send_message_on_channel demo_env 7 42 [1, 2, 3] (Some 102) no_header meshed_node)
       = [Send (peer 1) (create_MESSAGE demo_env 7 42 [1, 2, 3] no_header)]
   \<and> peer 3 \<in> set (sol_standby_conns meshed_node)
   \<and> peer 3 \<notin> set (sol_conns meshed_node) \<and> peer 3 \<notin> set (unsol_conns meshed_node)
   \<and> peer 3 \<notin> fst ` set (message_sends (new_effects meshed_node
         (send_message_on_channel demo_env 7 42 [1, 2, 3] (Some 102) no_header meshed_node)))
   \<and> message_sends (new_effects meshed_node
         (send_message_on_channel demo_env 7 42 (replicate 50001 0) None no_header meshed_node))
       = [(peer 1, True, create_MESSAGE demo_env 7 42 (replicate 50001 0) no_header),
          (peer 2, True, create_MESSAGE demo_env 7 42 (replicate 50001 0) no_header)]"
proof -
  note small = send_message_on_channel_recipients
    [of demo_env 7 42 "[1, 2, 3]" "Some 102" no_header meshed_node]
  note big = send_message_on_channel_recipients
    [of demo_env 7 42 "replicate 50001 0" None no_header meshed_node]
  have x: "\<not> is_excluded (Some 102) (peer 1)" "is_excluded (Some 102) (peer 2)"
    "\<And>t. \<not> is_excluded None t"
    by (simp_all add: is_excluded_def peer_def)
  have p: "peer 3 \<noteq> peer 1" "peer 3 \<noteq> peer 2"
    by (simp_all add: peer_def)
  from small x have 1: "new_effects meshed_node (send_message_on_channel demo_env 7 42 [1, 2, 3] (Some 102) no_header meshed_node)
       = [Send (peer 1) (create_MESSAGE demo_env 7 42 [1, 2, 3] no_header)]"
    by (simp add: meshed_node_slots)
  from small have 2: "peer 3 \<notin> fst ` set (message_sends (new_effects meshed_node
         (send_message_on_channel demo_env 7 42 [1, 2, 3] (Some 102) no_header meshed_node)))"
    using p by (simp add: meshed_node_slots)
  from big x have 3: "message_sends (new_effects meshed_node
         (send_message_on_channel demo_env 7 42 (replicate 50001 0) None no_header meshed_node))
       = [(peer 1, True, create_MESSAGE demo_env 7 42 (replicate 50001 0) no_header),
          (peer 2, True, create_MESSAGE demo_env 7 42 (replicate 50001 0) no_header)]"
    by (simp add: meshed_node_slots)
  show ?thesis
    using 1 2 3 p by (simp add: meshed_node_slots)
qed

subsection \<open>Incoming MESSAGE\<close>

lemma is_send_effect_no_upcall:
  "list_all (is_send_effect m) es \<Longrightarrow> delegate_upcalls es = []"
proof (induction es)
  case Nil
  show ?case by (simp add: delegate_upcalls_def)
next
  case (Cons e es)
  then show ?case by (cases e) (simp_all add: delegate_upcalls_def)
qed

lemma delegate_upcalls_append [simp]:
  "delegate_upcalls (xs @ ys) = delegate_upcalls xs @ delegate_upcalls ys"
  by (simp add: delegate_upcalls_def)

lemma did_recv_MESSAGE_duplicate:
  "read_uint64_be bytes 0 \<in> message_id_set s \<Longrightarrow> did_recv_MESSAGE E t bytes s = (0, s)"
  by (simp add: did_recv_MESSAGE_def Let_def)

lemma recv_all_duplicates:
  "\<forall>c \<in> set calls. read_uint64_be (snd c) 0 \<in> message_id_set s \<Longrightarrow>
     recv_all E calls s = (replicate (length calls) 0, s)"
proof (induction calls)
  case Nil
  show ?case by simp
next
  case (Cons c calls)
  obtain t bytes where c: "c = (t, bytes)" by (cases c)
  from Cons.prems c have "did_recv_MESSAGE E t bytes s = (0, s)"
    by (simp add: did_recv_MESSAGE_duplicate)
  moreover from Cons have "recv_all E calls s = (replicate (length calls) 0, s)" by simp
  ultimately show ?case by (simp add: c)
qed

lemma did_recv_MESSAGE_fresh:
  assumes "read_uint64_be bytes 0 \<notin> message_id_set s" and "attestation_passes E bytes"
  shows "\<exists>es. did_recv_MESSAGE E t bytes s =
      (0, s\<lparr>message_id_set := insert (read_uint64_be bytes 0) (message_id_set s),
             message_id_events := (message_id_events s)
               [unat (message_id_idx s) := message_id_events s ! unat (message_id_idx s) @ [read_uint64_be bytes 0]],
             effects := effects s @ es
               @ [DelegateDidRecvMessage (snd (parse_header E bytes)) (fst (parse_header E bytes))
                    (read_uint16_be bytes 8) (read_uint64_be bytes 0)]\<rparr>)
    \<and> delegate_upcalls es = []"
proof (cases "enable_relay E")
  case False
  with assms show ?thesis
    by (intro exI [of _ "[]"])
       (simp add: did_recv_MESSAGE_def Let_def split_beta attestation_passes_def emit_def
          delegate_upcalls_def)
next
  case True
  let ?s1 = "s\<lparr>message_id_set := insert (read_uint64_be bytes 0) (message_id_set s),
             message_id_events := (message_id_events s)
               [unat (message_id_idx s) := message_id_events s ! unat (message_id_idx s) @ [read_uint64_be bytes 0]]\<rparr>"
  obtain es where e: "send_message_on_channel E (read_uint16_be bytes 8) (read_uint64_be bytes 0)
        (snd (parse_header E bytes)) (Some (dst_addr t)) (fst (parse_header E bytes)) ?s1
      = ?s1\<lparr>effects := effects ?s1 @ es\<rparr>"
    and a: "list_all (is_send_effect (create_MESSAGE E (read_uint16_be bytes 8) (read_uint64_be bytes 0)
        (snd (parse_header E bytes)) (fst (parse_header E bytes)))) es"
    using send_message_on_channel_effects [of E "read_uint16_be bytes 8" "read_uint64_be bytes 0"
        "snd (parse_header E bytes)" "Some (dst_addr t)" "fst (parse_header E bytes)" ?s1]
    by blast
  have "delegate_upcalls es = []"
    using a by (rule is_send_effect_no_upcall)
  moreover have "did_recv_MESSAGE E t bytes s =
      (0, ?s1\<lparr>effects := effects s @ es
               @ [DelegateDidRecvMessage (snd (parse_header E bytes)) (fst (parse_header E bytes))
                    (read_uint16_be bytes 8) (read_uint64_be bytes 0)]\<rparr>)"
    using assms True e
    by (simp add: did_recv_MESSAGE_def Let_def split_beta attestation_passes_def emit_def)
  ultimately show ?thesis by (intro exI [of _ es]) simp
qed

text \<open>
  C1. A \<^verbatim>\<open>did_recv_MESSAGE\<close> call whose message id is in the seen set returns 0 and
  leaves the whole node (seen ids, dedup ring, slots, effects) as it was, and so does any
  run of such calls. A call whose id is not yet seen and whose attestation passes
  returns 0, puts the id into the seen set and makes exactly one delegate upcall, with
  the payload, header, channel and id of the message; every later call of a run that
  carries the same id returns 0 and changes nothing.
\<close>

theorem did_recv_MESSAGE_exactly_once:
  "(read_uint64_be bytes 0 \<in> message_id_set s \<longrightarrow> did_recv_MESSAGE E t bytes s = (0, s))
 \<and> ((\<forall>c \<in> set calls. read_uint64_be (snd c) 0 \<in> message_id_set s) \<longrightarrow>
       recv_all E calls s = (replicate (length calls) 0, s))
 \<and> (read_uint64_be bytes 0 \<notin> message_id_set s \<and> attestation_passes E bytes \<longrightarrow>
       fst (did_recv_MESSAGE E t bytes s) = 0
     \<and> read_uint64_be bytes 0 \<in> message_id_set (snd (did_recv_MESSAGE E t bytes s))
     \<and> delegate_upcalls (new_effects s (snd (did_recv_MESSAGE E t bytes s)))
         = [DelegateDidRecvMessage (snd (parse_header E bytes)) (fst (parse_header E bytes))
              (read_uint16_be bytes 8) (read_uint64_be bytes 0)]
     \<and> ((\<forall>c \<in> set later. read_uint64_be (snd c) 0 = read_uint64_be bytes 0) \<longrightarrow>
          recv_all E ((t, bytes) # later) s
            = (replicate (Suc (length later)) 0, snd (did_recv_MESSAGE E t bytes s))))"
proof (intro conjI impI)
  assume "read_uint64_be bytes 0 \<in> message_id_set s"
  then show "did_recv_MESSAGE E t bytes s = (0, s)" by (rule did_recv_MESSAGE_duplicate)
next
  assume "\<forall>c \<in> set calls. read_uint64_be (snd c) 0 \<in> message_id_set s"
  then show "recv_all E calls s = (replicate (length calls) 0, s)" by (rule recv_all_duplicates)
next
  assume h: "read_uint64_be bytes 0 \<notin> message_id_set s \<and> attestation_passes E bytes"
  then obtain es where r: "did_recv_MESSAGE E t bytes s =
      (0, s\<lparr>message_id_set := insert (read_uint64_be bytes 0) (message_id_set s),
             message_id_events := (message_id_events s)
               [unat (message_id_idx s) := message_id_events s ! unat (message_id_idx s) @ [read_uint64_be bytes 0]],
             effects := effects s @ es
               @ [DelegateDidRecvMessage (snd (parse_header E bytes)) (fst (parse_header E bytes))
                    (read_uint16_be bytes 8) (read_uint64_be bytes 0)]\<rparr>)"
    and u: "delegate_upcalls es = []"
    using did_recv_MESSAGE_fresh [of bytes s E t] by blast
  show "fst (did_recv_MESSAGE E t bytes s) = 0" by (simp add: r)
  show seen: "read_uint64_be bytes 0 \<in> message_id_set (snd (did_recv_MESSAGE E t bytes s))"
    by (simp add: r)
  show "delegate_upcalls (new_effects s (snd (did_recv_MESSAGE E t bytes s)))
         = [DelegateDidRecvMessage (snd (parse_header E bytes)) (fst (parse_header E bytes))
              (read_uint16_be bytes 8) (read_uint64_be bytes 0)]"
    using u by (simp add: r new_effects_def) (simp add: delegate_upcalls_def)
  assume "\<forall>c \<in> set later. read_uint64_be (snd c) 0 = read_uint64_be bytes 0"
  with seen have "recv_all E later (snd (did_recv_MESSAGE E t bytes s))
      = (replicate (length later) 0, snd (did_recv_MESSAGE E t bytes s))"
    by (intro recv_all_duplicates) simp
  then show "recv_all E ((t, bytes) # later) s
            = (replicate (Suc (length later)) 0, snd (did_recv_MESSAGE E t bytes s))"
    by (simp add: split_beta Let_def r)
qed

text \<open>
  C8. For an incoming MESSAGE that is not a duplicate and on which \<^verbatim>\<open>attester.verify\<close>
  answers false, \<^verbatim>\<open>did_recv_MESSAGE\<close> closes the transport and returns -1; the close is
  the only effect, the delegate is not called, and the seen set, the dedup ring and its
  index are unchanged.
\<close>

theorem did_recv_MESSAGE_attestation_failure:
  assumes "read_uint64_be bytes 0 \<notin> message_id_set s" and "\<not> attestation_passes E bytes"
  shows "did_recv_MESSAGE E t bytes s = (- 1, emit (Close t) s)
    \<and> new_effects s (snd (did_recv_MESSAGE E t bytes s)) = [Close t]
    \<and> delegate_upcalls (new_effects s (snd (did_recv_MESSAGE E t bytes s))) = []
    \<and> message_id_set (snd (did_recv_MESSAGE E t bytes s)) = message_id_set s
    \<and> message_id_events (snd (did_recv_MESSAGE E t bytes s)) = message_id_events s
    \<and> message_id_idx (snd (did_recv_MESSAGE E t bytes s)) = message_id_idx s"
proof -
  have r: "did_recv_MESSAGE E t bytes s = (- 1, emit (Close t) s)"
    using assms by (simp add: did_recv_MESSAGE_def Let_def split_beta attestation_passes_def)
  show ?thesis
    by (simp add: r) (simp add: emit_def new_effects_def delegate_upcalls_def)
qed


lemma demo_message_fields:
  "read_uint64_be (demo_message 42) 0 = 42" "read_uint16_be (demo_message 42) 8 = 7"
  "read_uint64_be (demo_message 13) 0 = 13" "read_uint16_be (demo_message 13) 8 = 7"
  "parse_header demo_env (demo_message i) =
     (\<lparr>attestation_data = [1, 2, 3], attestation_size = 0,
       witness_data = [1, 2, 3], witness_size = 0\<rparr>, [1, 2, 3])"
  by (simp_all add: read_uint64_be_def read_uint16_be_def be_decode_def demo_message_def
      parse_header_def cover_def demo_env_def Let_def)

lemma demo_message_verify:
  "attestation_passes demo_env (demo_message 42)" "\<not> attestation_passes demo_env (demo_message 13)"
  by (simp_all add: attestation_passes_def demo_message_fields) (simp_all add: demo_env_def)


text \<open>
  Message 42 arrives from peer 2, then again from peer 1 and from peer 2.
\<close>

theorem did_recv_MESSAGE_exactly_once_witness:
  "read_uint64_be (demo_message 42) 0 \<notin> message_id_set meshed_node
   \<and> attestation_passes demo_env (demo_message 42)
   \<and> fst (did_recv_MESSAGE demo_env (peer 2) (demo_message 42) meshed_node) = 0
   \<and> delegate_upcalls (new_effects meshed_node
         (snd (did_recv_MESSAGE demo_env (peer 2) (demo_message 42) meshed_node)))
       = [DelegateDidRecvMessage [1, 2, 3]
            \<lparr>attestation_data = [1, 2, 3], attestation_size = 0,
             witness_data = [1, 2, 3], witness_size = 0\<rparr> 7 42]
   \<and> read_uint64_be (demo_message 42) 0
       \<in> message_id_set (snd (did_recv_MESSAGE demo_env (peer 2) (demo_message 42) meshed_node))
   \<and> did_recv_MESSAGE demo_env (peer 1) (demo_message 42)
         (snd (did_recv_MESSAGE demo_env (peer 2) (demo_message 42) meshed_node))
       = (0, snd (did_recv_MESSAGE demo_env (peer 2) (demo_message 42) meshed_node))
   \<and> recv_all demo_env [(peer 2, demo_message 42), (peer 1, demo_message 42), (peer 2, demo_message 42)]
         meshed_node
       = ([0, 0, 0], snd (did_recv_MESSAGE demo_env (peer 2) (demo_message 42) meshed_node))"
proof -
  let ?s' = "snd (did_recv_MESSAGE demo_env (peer 2) (demo_message 42) meshed_node)"
  have f: "read_uint64_be (demo_message 42) 0 \<notin> message_id_set meshed_node"
    by (simp add: meshed_node_slots)
  note v = demo_message_verify(1)
  note first = did_recv_MESSAGE_exactly_once
    [of "demo_message 42" meshed_node demo_env "peer 2" "[]"
        "[(peer 1, demo_message 42), (peer 2, demo_message 42)]"]
  from first f v have 1: "fst (did_recv_MESSAGE demo_env (peer 2) (demo_message 42) meshed_node) = 0"
    by blast
  from first f v have 2: "read_uint64_be (demo_message 42) 0 \<in> message_id_set ?s'"
    by blast
  from first f v have 3: "delegate_upcalls (new_effects meshed_node ?s')
       = [DelegateDidRecvMessage (snd (parse_header demo_env (demo_message 42)))
            (fst (parse_header demo_env (demo_message 42)))
            (read_uint16_be (demo_message 42) 8) (read_uint64_be (demo_message 42) 0)]"
    by blast
  from first f v have 4: "recv_all demo_env
        ((peer 2, demo_message 42) # [(peer 1, demo_message 42), (peer 2, demo_message 42)]) meshed_node
       = (replicate (Suc (length [(peer 1, demo_message 42), (peer 2, demo_message 42)])) 0, ?s')"
    by simp
  from did_recv_MESSAGE_exactly_once [of "demo_message 42" ?s' demo_env "peer 1" "[]" "[]"] 2
  have 5: "did_recv_MESSAGE demo_env (peer 1) (demo_message 42) ?s' = (0, ?s')"
    by blast
  have 6: "replicate (Suc (length [(peer 1, demo_message 42), (peer 2, demo_message 42)])) (0 :: int) = [0, 0, 0]"
    by (simp add: numeral_2_eq_2)
  show ?thesis
    using f v 1 2 3 4 5 unfolding 6 by (simp add: demo_message_fields)
qed

text \<open>
  The attester of the demo environment rejects message 13.
\<close>

theorem did_recv_MESSAGE_attestation_failure_witness:
  "read_uint64_be (demo_message 13) 0 \<notin> message_id_set meshed_node
   \<and> \<not> attestation_passes demo_env (demo_message 13)
   \<and> did_recv_MESSAGE demo_env (peer 2) (demo_message 13) meshed_node
       = (- 1, emit (Close (peer 2)) meshed_node)
   \<and> delegate_upcalls (new_effects meshed_node
        (snd (did_recv_MESSAGE demo_env (peer 2) (demo_message 13) meshed_node))) = []
   \<and> message_id_set (snd (did_recv_MESSAGE demo_env (peer 2) (demo_message 13) meshed_node)) = {}"
proof -
  have f: "read_uint64_be (demo_message 13) 0 \<notin> message_id_set meshed_node"
    by (simp add: meshed_node_slots)
  note v = demo_message_verify(2)
  note th = did_recv_MESSAGE_attestation_failure [OF f v, of "peer 2"]
  from th have 1: "did_recv_MESSAGE demo_env (peer 2) (demo_message 13) meshed_node
       = (- 1, emit (Close (peer 2)) meshed_node)" by (rule conjunct1)
  from th have 2: "delegate_upcalls (new_effects meshed_node
        (snd (did_recv_MESSAGE demo_env (peer 2) (demo_message 13) meshed_node))) = []" by blast
  from th have 3: "message_id_set (snd (did_recv_MESSAGE demo_env (peer 2) (demo_message 13) meshed_node))
      = message_id_set meshed_node" by blast
  show ?thesis
    using f v 1 2 3 by (simp only: meshed_node_slots simp_thms)
qed

subsection \<open>Cut-through relay\<close>

lemma relay_sends_append [simp]: "relay_sends (xs @ ys) = relay_sends xs @ relay_sends ys"
  by (simp add: relay_sends_def List.map_filter_def)

lemma relay_starts_append [simp]: "relay_starts (xs @ ys) = relay_starts xs @ relay_starts ys"
  by (simp add: relay_starts_def List.map_filter_def)

lemma relay_simps [simp]:
  "relay_sends [] = []" "relay_starts [] = []"
  "relay_sends (CutThroughSendBytes t i b # es) = (t, i, b) # relay_sends es"
  "relay_sends (Close t # es) = relay_sends es"
  "relay_sends (CutThroughSendStart t len # es) = relay_sends es"
  "relay_sends (CutThroughSendSkip t i # es) = relay_sends es"
  "relay_starts (CutThroughSendBytes t i b # es) = relay_starts es"
  "relay_starts (Close t # es) = relay_starts es"
  "relay_starts (CutThroughSendStart t len # es) = t # relay_starts es"
  "relay_starts (CutThroughSendSkip t i # es) = relay_starts es"
  by (auto simp: relay_sends_def relay_starts_def List.map_filter_def)

lemma send_copy_effects:
  "\<exists>es. cut_through_send_copy E bytes sub s = s\<lparr>effects := effects s @ es\<rparr>
     \<and> relay_sends es = [(fst sub, snd sub, bytes)] \<and> relay_starts es = []"
  by (auto simp: cut_through_send_copy_def emit_def Let_def)

lemma fold_send_copy_effects:
  "\<exists>es. fold (cut_through_send_copy E bytes) subs s = s\<lparr>effects := effects s @ es\<rparr>
     \<and> relay_sends es = map (\<lambda>sub. (fst sub, snd sub, bytes)) subs \<and> relay_starts es = []"
proof (induction subs arbitrary: s)
  case Nil
  show ?case by (rule exI [of _ "[]"]) simp
next
  case (Cons sub subs)
  obtain es1 where 1: "cut_through_send_copy E bytes sub s = s\<lparr>effects := effects s @ es1\<rparr>"
    and r1: "relay_sends es1 = [(fst sub, snd sub, bytes)]" "relay_starts es1 = []"
    using send_copy_effects [of E bytes sub s] by blast
  let ?s1 = "s\<lparr>effects := effects s @ es1\<rparr>"
  obtain es2 where 2: "fold (cut_through_send_copy E bytes) subs ?s1 = ?s1\<lparr>effects := effects ?s1 @ es2\<rparr>"
    and r2: "relay_sends es2 = map (\<lambda>sub. (fst sub, snd sub, bytes)) subs" "relay_starts es2 = []"
    using Cons.IH [of ?s1] by blast
  have "fold (cut_through_send_copy E bytes) (sub # subs) s = s\<lparr>effects := effects s @ (es1 @ es2)\<rparr>"
    using 2 by (simp add: 1)
  then show ?case
    using r1 r2 by (intro exI [of _ "es1 @ es2"]) simp
qed

lemma cut_through_forward_effects:
  "\<exists>es. cut_through_forward E k bytes s = (0, s\<lparr>effects := effects s @ es\<rparr>)
     \<and> relay_sends es = map (\<lambda>sub. (fst sub, snd sub, bytes)) (cut_through_map s k)
     \<and> relay_starts es = []"
  using fold_send_copy_effects [of E bytes "cut_through_map s k" s]
  by (auto simp: cut_through_forward_def)

lemma subscribe_step:
  "\<exists>es subs. cut_through_subscribe E t i bytes wl x s
      = s\<lparr>effects := effects s @ es,
           cut_through_map := (cut_through_map s)((t, i) := cut_through_map s (t, i) @ subs)\<rparr>
     \<and> relay_sends es = [] \<and> set (relay_starts es) \<subseteq> admitted t bytes wl [x]
     \<and> fst ` set subs \<subseteq> admitted t bytes wl [x]"
proof (cases "t = x \<or> pk_in_witness bytes wl x")
  case True
  then have "cut_through_subscribe E t i bytes wl x s = s"
    by (auto simp: cut_through_subscribe_def)
  then show ?thesis
    by (intro exI [of _ "[]"]) simp
next
  case False
  let ?len = "cut_through_length s (t, i) + 32"
  let ?id = "cut_through_send_start_res E (effects s) x ?len"
  show ?thesis
  proof (cases "?id = 0")
    case True
    with False have "cut_through_subscribe E t i bytes wl x s
        = s\<lparr>effects := effects s @ [CutThroughSendStart x ?len],
             cut_through_map := (cut_through_map s)((t, i) := cut_through_map s (t, i) @ [])\<rparr>"
      by (simp add: cut_through_subscribe_def emit_def Let_def)
    moreover have "x \<in> admitted t bytes wl [x]"
      using False by (auto simp: admitted_def)
    ultimately show ?thesis
      by (intro exI [of _ "[CutThroughSendStart x ?len]"] exI [of _ "[]"]) simp
  next
    case nz: False
    with False have "cut_through_subscribe E t i bytes wl x s
        = s\<lparr>effects := effects s @ [CutThroughSendStart x ?len],
             cut_through_map := (cut_through_map s)((t, i) := cut_through_map s (t, i) @ [(x, ?id)])\<rparr>"
      by (simp add: cut_through_subscribe_def emit_def Let_def)
    moreover have "x \<in> admitted t bytes wl [x]"
      using False by (auto simp: admitted_def)
    ultimately show ?thesis
      by (intro exI [of _ "[CutThroughSendStart x ?len]"] exI [of _ "[(x, ?id)]"]) simp
  qed
qed

lemma admitted_Cons: "admitted t bytes wl (x # xs) = admitted t bytes wl [x] \<union> admitted t bytes wl xs"
  by (auto simp: admitted_def)

lemma admitted_append: "admitted t bytes wl (xs @ ys) = admitted t bytes wl xs \<union> admitted t bytes wl ys"
  by (auto simp: admitted_def)

lemma subscribe_loop:
  "\<exists>es subs. fold (cut_through_subscribe E t i bytes wl) ts s
      = s\<lparr>effects := effects s @ es,
           cut_through_map := (cut_through_map s)((t, i) := cut_through_map s (t, i) @ subs)\<rparr>
     \<and> relay_sends es = [] \<and> set (relay_starts es) \<subseteq> admitted t bytes wl ts
     \<and> fst ` set subs \<subseteq> admitted t bytes wl ts"
proof (induction ts arbitrary: s)
  case Nil
  show ?case by (intro exI [of _ "[]"]) simp
next
  case (Cons x ts)
  obtain es1 subs1 where 1: "cut_through_subscribe E t i bytes wl x s
      = s\<lparr>effects := effects s @ es1,
           cut_through_map := (cut_through_map s)((t, i) := cut_through_map s (t, i) @ subs1)\<rparr>"
    and r1: "relay_sends es1 = []" "set (relay_starts es1) \<subseteq> admitted t bytes wl [x]"
      "fst ` set subs1 \<subseteq> admitted t bytes wl [x]"
    using subscribe_step [of E t i bytes wl x s] by blast
  let ?s1 = "cut_through_subscribe E t i bytes wl x s"
  obtain es2 subs2 where 2: "fold (cut_through_subscribe E t i bytes wl) ts ?s1
      = ?s1\<lparr>effects := effects ?s1 @ es2,
           cut_through_map := (cut_through_map ?s1)((t, i) := cut_through_map ?s1 (t, i) @ subs2)\<rparr>"
    and r2: "relay_sends es2 = []" "set (relay_starts es2) \<subseteq> admitted t bytes wl ts"
      "fst ` set subs2 \<subseteq> admitted t bytes wl ts"
    using Cons.IH [of ?s1] by blast
  have "fold (cut_through_subscribe E t i bytes wl) (x # ts) s
      = s\<lparr>effects := effects s @ (es1 @ es2),
           cut_through_map := (cut_through_map s)((t, i) := cut_through_map s (t, i) @ (subs1 @ subs2))\<rparr>"
    using 2 by (simp add: 1)
  moreover have "relay_sends (es1 @ es2) = []"
    using r1 r2 by simp
  moreover have "set (relay_starts (es1 @ es2)) \<subseteq> admitted t bytes wl (x # ts)"
    using r1 r2 unfolding admitted_Cons [of t bytes wl x ts] by auto
  moreover have "fst ` set (subs1 @ subs2) \<subseteq> admitted t bytes wl (x # ts)"
    using r1 r2 unfolding admitted_Cons [of t bytes wl x ts] by auto
  ultimately show ?case by blast
qed


lemma length_be_encode [simp]: "length (be_encode k v) = k"
  by (simp add: be_encode_def)

lemma header_rewrite:
  assumes "13 + L \<le> length bytes"
  shows "write_uint16_be (take (13 + L) bytes @ pk) 11 v
       = take 11 bytes @ be_encode 2 (unat v) @ take L (drop 13 bytes) @ pk"
proof -
  have d: "drop 13 (take (13 + L) bytes) = take L (drop 13 bytes)"
    by (simp add: drop_take)
  have l: "length (take L (drop 13 bytes)) = L"
    using assms by simp
  show ?thesis
    using assms by (simp add: write_uint16_be_def write_bytes_def d min_absorb2)
qed


lemma be_encode_2: "be_encode 2 n = [of_nat (n div 256), of_nat n]"
proof -
  have "[0..<2] = [0, Suc 0]" by (simp add: upt_rec numeral_2_eq_2)
  then show ?thesis by (simp add: be_encode_def numeral_2_eq_2)
qed





lemma first_chunk:
  assumes h: "\<not> cut_through_header_recv s (t, i)"
    and l: "\<not> length bytes mod 65536 < 13 + unat (read_uint16_be bytes 11)"
    and f: "read_uint64_be bytes 1 \<notin> message_id_set s"
  shows "\<exists>es subs. cut_through_recv_bytes E t i bytes s =
       (0, s\<lparr>cut_through_header_recv := (cut_through_header_recv s)((t, i) := True),
              message_id_set := insert (read_uint64_be bytes 1) (message_id_set s),
              message_id_events := (message_id_events s)
                [unat (message_id_idx s) := message_id_events s ! unat (message_id_idx s) @ [read_uint64_be bytes 1]],
              cut_through_map := (cut_through_map s)((t, i) := cut_through_map s (t, i) @ subs),
              effects := effects s @ es\<rparr>)
     \<and> relay_sends es
         = map (\<lambda>sub. (fst sub, snd sub, relayed_header E bytes)) (cut_through_map s (t, i) @ subs)
         @ map (\<lambda>sub. (fst sub, snd sub, drop (13 + unat (read_uint16_be bytes 11)) bytes))
             (cut_through_map s (t, i) @ subs)
     \<and> set (relay_starts es) \<subseteq> admitted t bytes (unat (read_uint16_be bytes 11)) (sol_conns s @ unsol_conns s)
     \<and> fst ` set subs \<subseteq> admitted t bytes (unat (read_uint16_be bytes 11)) (sol_conns s @ unsol_conns s)"
proof -
  let ?L = "unat (read_uint16_be bytes 11)"
  let ?k = "(t, i)"
  let ?A = "admitted t bytes ?L"
  have len: "13 + ?L \<le> length bytes"
  proof -
    have "length bytes mod 65536 \<le> length bytes" by simp
    with l show ?thesis by linarith
  qed
  let ?buf = "write_uint16_be (take (13 + ?L) bytes @ own_static_pk E) 11 (of_nat (?L + 32))"
  have buf: "?buf = relayed_header E bytes"
    using header_rewrite [OF len, of "own_static_pk E" "of_nat (?L + 32)"]
    by (simp add: relayed_header_def Let_def)
  let ?s2 = "s\<lparr>cut_through_header_recv := (cut_through_header_recv s)(?k := True),
              message_id_set := insert (read_uint64_be bytes 1) (message_id_set s),
              message_id_events := (message_id_events s)
                [unat (message_id_idx s) := message_id_events s ! unat (message_id_idx s) @ [read_uint64_be bytes 1]]\<rparr>"
  obtain es1 subs1 where 3: "fold (cut_through_subscribe E t i bytes ?L) (sol_conns s) ?s2
      = ?s2\<lparr>effects := effects s @ es1,
           cut_through_map := (cut_through_map s)(?k := cut_through_map s ?k @ subs1)\<rparr>"
    and r1: "relay_sends es1 = []" "set (relay_starts es1) \<subseteq> ?A (sol_conns s)"
      "fst ` set subs1 \<subseteq> ?A (sol_conns s)"
    using subscribe_loop [of E t i bytes ?L "sol_conns s" ?s2] by auto
  let ?s3 = "?s2\<lparr>effects := effects s @ es1,
           cut_through_map := (cut_through_map s)(?k := cut_through_map s ?k @ subs1)\<rparr>"
  obtain es2 subs2 where 4: "fold (cut_through_subscribe E t i bytes ?L) (unsol_conns s) ?s3
      = ?s3\<lparr>effects := (effects s @ es1) @ es2,
           cut_through_map := (cut_through_map s)(?k := (cut_through_map s ?k @ subs1) @ subs2)\<rparr>"
    and r2: "relay_sends es2 = []" "set (relay_starts es2) \<subseteq> ?A (unsol_conns s)"
      "fst ` set subs2 \<subseteq> ?A (unsol_conns s)"
    using subscribe_loop [of E t i bytes ?L "unsol_conns s" ?s3] by auto
  let ?s4 = "?s3\<lparr>effects := (effects s @ es1) @ es2,
           cut_through_map := (cut_through_map s)(?k := (cut_through_map s ?k @ subs1) @ subs2)\<rparr>"
  obtain es3 where 5: "cut_through_forward E ?k ?buf ?s4 = (0, ?s4\<lparr>effects := ((effects s @ es1) @ es2) @ es3\<rparr>)"
    and r3: "relay_sends es3 = map (\<lambda>sub. (fst sub, snd sub, ?buf)) ((cut_through_map s ?k @ subs1) @ subs2)"
      "relay_starts es3 = []"
    using cut_through_forward_effects [of E ?k ?buf ?s4] by auto
  let ?s5 = "?s4\<lparr>effects := ((effects s @ es1) @ es2) @ es3\<rparr>"
  obtain es4 where 6: "cut_through_forward E ?k (drop (13 + ?L) bytes) ?s5
        = (0, ?s5\<lparr>effects := (((effects s @ es1) @ es2) @ es3) @ es4\<rparr>)"
    and r4: "relay_sends es4 = map (\<lambda>sub. (fst sub, snd sub, drop (13 + ?L) bytes))
        ((cut_through_map s ?k @ subs1) @ subs2)"
      "relay_starts es4 = []"
    using cut_through_forward_effects [of E ?k "drop (13 + ?L) bytes" ?s5] by auto
  have res: "cut_through_recv_bytes E t i bytes s = (0, ?s5\<lparr>effects := (((effects s @ es1) @ es2) @ es3) @ es4\<rparr>)"
    using h l f 3 4 5 6 unfolding cut_through_recv_bytes_def Let_def cover_def
    by (simp del: append_assoc)
  have eq: "cut_through_recv_bytes E t i bytes s =
       (0, s\<lparr>cut_through_header_recv := (cut_through_header_recv s)((t, i) := True),
              message_id_set := insert (read_uint64_be bytes 1) (message_id_set s),
              message_id_events := (message_id_events s)
                [unat (message_id_idx s) := message_id_events s ! unat (message_id_idx s) @ [read_uint64_be bytes 1]],
              cut_through_map := (cut_through_map s)((t, i) := cut_through_map s (t, i) @ (subs1 @ subs2)),
              effects := effects s @ (es1 @ es2 @ es3 @ es4)\<rparr>)"
    unfolding res by simp
  moreover have "relay_sends (es1 @ es2 @ es3 @ es4)
         = map (\<lambda>sub. (fst sub, snd sub, relayed_header E bytes)) (cut_through_map s (t, i) @ (subs1 @ subs2))
         @ map (\<lambda>sub. (fst sub, snd sub, drop (13 + ?L) bytes)) (cut_through_map s (t, i) @ (subs1 @ subs2))"
    using r1 r2 r3 r4 unfolding buf by simp
  moreover have "set (relay_starts (es1 @ es2 @ es3 @ es4)) \<subseteq> ?A (sol_conns s @ unsol_conns s)"
    using r1 r2 r3 r4 unfolding admitted_append by auto
  moreover have "fst ` set (subs1 @ subs2) \<subseteq> ?A (sol_conns s @ unsol_conns s)"
    using r1 r2 unfolding admitted_append by auto
  ultimately show ?thesis by blast
qed


lemma pk_in_witness_chunks:
  "pk_in_witness bytes (unat (read_uint16_be bytes 11)) x
     = (take 32 (remote_static_pk x) \<in> set (witness_chunks bytes))"
  unfolding pk_in_witness_def witness_chunks_def list_ex_iff
  by (auto simp: image_iff) (metis atLeastLessThan_iff zero_le)

lemma admitted_iff:
  "x \<in> admitted t bytes (unat (read_uint16_be bytes 11)) ts
     = (x \<in> set ts \<and> x \<noteq> t \<and> take 32 (remote_static_pk x) \<notin> set (witness_chunks bytes))"
  by (simp add: admitted_def pk_in_witness_chunks)

lemma relay_sends_targets:
  "relay_sends es = map (\<lambda>sub. (fst sub, snd sub, a)) xs @ map (\<lambda>sub. (fst sub, snd sub, b)) xs
     \<Longrightarrow> fst ` set (relay_sends es) = fst ` set xs"
  by (auto simp: image_iff) force+


text \<open>
  C3. After \<^verbatim>\<open>cut_through_recv_start\<close> and the first \<^verbatim>\<open>cut_through_recv_bytes\<close> of a
  session, every peer in the session's subscriber list, every peer a cut-through
  stream was opened to and every peer that was sent relayed bytes is a solicited or
  unsolicited peer other than the ingress transport whose 32-byte remote static key is
  none of the aligned 32-byte chunks of the witness. Once the header has been seen,
  the bytes of every later chunk go to members of that subscriber list only.
\<close>

theorem cut_through_skips_witnessed_peers:
  "(\<forall>sub \<in> fst ` set (cut_through_map (after_first_chunk E t i len bytes s) (t, i))
          \<union> set (relay_starts (new_effects s (after_first_chunk E t i len bytes s)))
          \<union> fst ` set (relay_sends (new_effects s (after_first_chunk E t i len bytes s))).
       sub \<noteq> t \<and> sub \<in> set (sol_conns s) \<union> set (unsol_conns s)
     \<and> take 32 (remote_static_pk sub) \<notin> set (witness_chunks bytes))
 \<and> (cut_through_header_recv (after_first_chunk E t i len bytes s) (t, i) \<longrightarrow>
      (\<forall>sub \<in> fst ` set (relay_sends (new_effects (after_first_chunk E t i len bytes s)
             (snd (cut_through_recv_bytes E t i chunk (after_first_chunk E t i len bytes s))))).
         sub \<in> fst ` set (cut_through_map (after_first_chunk E t i len bytes s) (t, i))))"
proof (intro conjI impI)
  let ?L = "unat (read_uint16_be bytes 11)"
  let ?s0 = "cut_through_recv_start t i len s"
  let ?s' = "after_first_chunk E t i len bytes s"
  let ?A = "admitted t bytes ?L (sol_conns s @ unsol_conns s)"
  have s0: "\<not> cut_through_header_recv ?s0 (t, i)" "cut_through_map ?s0 (t, i) = []"
    "message_id_set ?s0 = message_id_set s" "sol_conns ?s0 = sol_conns s"
    "unsol_conns ?s0 = unsol_conns s" "effects ?s0 = effects s"
    by (simp_all add: cut_through_recv_start_def)
  have main: "fst ` set (cut_through_map ?s' (t, i)) \<subseteq> ?A
      \<and> set (relay_starts (new_effects s ?s')) \<subseteq> ?A
      \<and> fst ` set (relay_sends (new_effects s ?s')) \<subseteq> ?A"
  proof (cases "length bytes mod 65536 < 13 + ?L")
    case True
    then have "cut_through_recv_bytes E t i bytes ?s0 = (- 1, emit (Close t) ?s0)"
      using s0(1) by (simp add: cut_through_recv_bytes_def Let_def)
    then show ?thesis
      by (simp add: after_first_chunk_def new_effects_def emit_def s0)
  next
    case enough: False
    show ?thesis
    proof (cases "read_uint64_be bytes 1 \<in> message_id_set s")
      case True
      then have "cut_through_recv_bytes E t i bytes ?s0
          = (- 1, emit (CutThroughSendSkip t i)
               (?s0\<lparr>cut_through_header_recv := (cut_through_header_recv ?s0)((t, i) := True)\<rparr>))"
        using s0(1) s0(3) enough by (simp add: cut_through_recv_bytes_def Let_def)
      then show ?thesis
        by (simp add: after_first_chunk_def new_effects_def emit_def s0)
    next
      case False
      then have f: "read_uint64_be bytes 1 \<notin> message_id_set ?s0" by (simp add: s0)
      obtain es subs where r: "cut_through_recv_bytes E t i bytes ?s0 =
         (0, ?s0\<lparr>cut_through_header_recv := (cut_through_header_recv ?s0)((t, i) := True),
              message_id_set := insert (read_uint64_be bytes 1) (message_id_set ?s0),
              message_id_events := (message_id_events ?s0)
                [unat (message_id_idx ?s0) := message_id_events ?s0 ! unat (message_id_idx ?s0) @ [read_uint64_be bytes 1]],
              cut_through_map := (cut_through_map ?s0)((t, i) := cut_through_map ?s0 (t, i) @ subs),
              effects := effects ?s0 @ es\<rparr>)"
        and rs: "relay_sends es
           = map (\<lambda>sub. (fst sub, snd sub, relayed_header E bytes)) (cut_through_map ?s0 (t, i) @ subs)
           @ map (\<lambda>sub. (fst sub, snd sub, drop (13 + ?L) bytes)) (cut_through_map ?s0 (t, i) @ subs)"
        and st: "set (relay_starts es) \<subseteq> admitted t bytes ?L (sol_conns ?s0 @ unsol_conns ?s0)"
        and sb: "fst ` set subs \<subseteq> admitted t bytes ?L (sol_conns ?s0 @ unsol_conns ?s0)"
        using first_chunk [OF s0(1) enough f, of E] by blast
      have m: "cut_through_map ?s' (t, i) = subs"
        by (simp add: after_first_chunk_def r s0)
      have e: "new_effects s ?s' = es"
        by (simp add: after_first_chunk_def r s0 new_effects_def)
      have "fst ` set (relay_sends es) = fst ` set subs"
        using rs relay_sends_targets [of es "relayed_header E bytes" subs "drop (13 + ?L) bytes"]
        by (simp add: s0)
      then show ?thesis
        using st sb by (simp add: m e s0)
    qed
  qed
  show "\<forall>sub \<in> fst ` set (cut_through_map ?s' (t, i))
          \<union> set (relay_starts (new_effects s ?s'))
          \<union> fst ` set (relay_sends (new_effects s ?s')).
       sub \<noteq> t \<and> sub \<in> set (sol_conns s) \<union> set (unsol_conns s)
     \<and> take 32 (remote_static_pk sub) \<notin> set (witness_chunks bytes)"
  proof
    fix sub
    assume "sub \<in> fst ` set (cut_through_map ?s' (t, i))
          \<union> set (relay_starts (new_effects s ?s'))
          \<union> fst ` set (relay_sends (new_effects s ?s'))"
    with main have "sub \<in> ?A" by blast
    then show "sub \<noteq> t \<and> sub \<in> set (sol_conns s) \<union> set (unsol_conns s)
     \<and> take 32 (remote_static_pk sub) \<notin> set (witness_chunks bytes)"
      by (simp add: admitted_iff)
  qed
next
  let ?s' = "after_first_chunk E t i len bytes s"
  assume h: "cut_through_header_recv ?s' (t, i)"
  then have r: "cut_through_recv_bytes E t i chunk ?s' = cut_through_forward E (t, i) chunk ?s'"
    by (simp add: cut_through_recv_bytes_def)
  obtain es where e: "cut_through_forward E (t, i) chunk ?s' = (0, ?s'\<lparr>effects := effects ?s' @ es\<rparr>)"
    and rs: "relay_sends es = map (\<lambda>sub. (fst sub, snd sub, chunk)) (cut_through_map ?s' (t, i))"
    using cut_through_forward_effects [of E "(t, i)" chunk ?s'] by blast
  have "new_effects ?s' (snd (cut_through_recv_bytes E t i chunk ?s')) = es"
    by (simp add: r e new_effects_def)
  then show "\<forall>sub \<in> fst ` set (relay_sends (new_effects ?s'
             (snd (cut_through_recv_bytes E t i chunk ?s')))).
         sub \<in> fst ` set (cut_through_map ?s' (t, i))"
    using rs by (auto simp: image_iff)
qed


lemma demo_chunk_fields:
  "unat (read_uint16_be demo_chunk 11) = 32" "read_uint64_be demo_chunk 1 = 42"
  "length demo_chunk = 48"
  "witness_chunks demo_chunk = [replicate 32 2]"
  by (simp_all add: demo_chunk_def read_uint16_be_def read_uint64_be_def be_decode_def
      witness_chunks_def)

lemma demo_pk_in_witness:
  "\<not> pk_in_witness demo_chunk 32 (peer 1)" "pk_in_witness demo_chunk 32 (peer 2)"
  using pk_in_witness_chunks [of demo_chunk "peer 1"] pk_in_witness_chunks [of demo_chunk "peer 2"]
  by (simp_all add: demo_chunk_fields) (simp_all add: peer_def)

lemma relay_node_fields:
  "sol_conns relay_node = [peer 1, peer 4]" "unsol_conns relay_node = [peer 2]"
  "message_id_set relay_node = {}" "effects relay_node = []"
  "cut_through_header_recv relay_node = (\<lambda>k. False)"
  by (simp_all add: relay_node_def demo_node_def)

lemma demo_first_chunk:
  "after_first_chunk relay_env (peer 4) 5 48 demo_chunk relay_node
     = relay_node\<lparr>cut_through_header_recv := (\<lambda>k. False)((peer 4, 5) := True),
         cut_through_length := (cut_through_length relay_node)((peer 4, 5) := 48),
         message_id_set := {42},
         message_id_events := (replicate 256 [])[0 := [42]],
         cut_through_map := (cut_through_map relay_node)((peer 4, 5) := [(peer 1, 1)]),
         effects := [CutThroughSendStart (peer 1) 80,
           CutThroughSendBytes (peer 1) 1
             ([3, 0, 0, 0, 0, 0, 0, 0, 42, 0, 7, 0, 64] @ replicate 32 2 @ replicate 32 9),
           CutThroughSendBytes (peer 1) 1 [1, 2, 3]]\<rparr>"
proof -
  have p: "peer 4 \<noteq> peer 1" "peer 4 \<noteq> peer 2" by (simp_all add: peer_def)
  have start: "cut_through_send_start_res relay_env [] (peer 1) 80 = 1"
    "cut_through_send_bytes_res relay_env = (\<lambda>es t i b. 0)"
    "own_static_pk relay_env = replicate 32 9"
    by (simp_all add: relay_env_def demo_env_def)
  have hdr: "write_uint16_be (take 45 demo_chunk @ replicate 32 9) 11 64
      = [3, 0, 0, 0, 0, 0, 0, 0, 42, 0, 7, 0, 64] @ replicate 32 2 @ replicate 32 9"
    by (simp add: write_uint16_be_def write_bytes_def be_encode_2 demo_chunk_def)
  have rest: "drop 45 demo_chunk = [1, 2, 3]"
    by (simp add: demo_chunk_def)
  show ?thesis
    using p demo_pk_in_witness start hdr rest demo_chunk_fields(2)
    by (simp add: after_first_chunk_def cut_through_recv_bytes_def cut_through_recv_start_def
        demo_chunk_fields relay_node_fields cut_through_subscribe_def cut_through_forward_def
        cut_through_send_copy_def emit_def Let_def cover_def)
       (simp add: relay_node_def demo_node_def)
qed


text \<open>
  The witness holds the key of peer 2: peer 2 (unsolicited) and the ingress peer 4
  (solicited) are not subscribers and get no bytes, peer 1 is a subscriber.
\<close>

theorem cut_through_skips_witnessed_peers_witness:
  "peer 2 \<in> set (unsol_conns relay_node)
   \<and> take 32 (remote_static_pk (peer 2)) \<in> set (witness_chunks demo_chunk)
   \<and> peer 2 \<notin> fst ` set (cut_through_map
         (after_first_chunk relay_env (peer 4) 5 48 demo_chunk relay_node) (peer 4, 5))
   \<and> peer 2 \<notin> fst ` set (relay_sends (new_effects relay_node
         (after_first_chunk relay_env (peer 4) 5 48 demo_chunk relay_node)))
   \<and> peer 4 \<in> set (sol_conns relay_node)
   \<and> peer 4 \<notin> fst ` set (cut_through_map
         (after_first_chunk relay_env (peer 4) 5 48 demo_chunk relay_node) (peer 4, 5))
   \<and> peer 1 \<in> fst ` set (cut_through_map
         (after_first_chunk relay_env (peer 4) 5 48 demo_chunk relay_node) (peer 4, 5))
   \<and> take 32 (remote_static_pk (peer 1)) \<notin> set (witness_chunks demo_chunk)
   \<and> cut_through_header_recv (after_first_chunk relay_env (peer 4) 5 48 demo_chunk relay_node) (peer 4, 5)
   \<and> peer 2 \<notin> fst ` set (relay_sends
         (new_effects (after_first_chunk relay_env (peer 4) 5 48 demo_chunk relay_node)
           (snd (cut_through_recv_bytes relay_env (peer 4) 5 [4, 5, 6]
              (after_first_chunk relay_env (peer 4) 5 48 demo_chunk relay_node)))))"
proof -
  let ?s' = "after_first_chunk relay_env (peer 4) 5 48 demo_chunk relay_node"
  note th = cut_through_skips_witnessed_peers [of relay_env "peer 4" 5 48 demo_chunk relay_node "[4, 5, 6]"]
  have a: "peer 2 \<in> set (unsol_conns relay_node)" "peer 4 \<in> set (sol_conns relay_node)"
    by (simp_all add: relay_node_fields)
  have w2: "take 32 (remote_static_pk (peer 2)) \<in> set (witness_chunks demo_chunk)"
    by (simp add: demo_chunk_fields peer_def)
  have m: "peer 1 \<in> fst ` set (cut_through_map ?s' (peer 4, 5))"
    "fst ` set (cut_through_map ?s' (peer 4, 5)) = {peer 1}"
    by (simp_all add: demo_first_chunk)
  have hr: "cut_through_header_recv ?s' (peer 4, 5)"
    by (simp add: demo_first_chunk)
  have p: "peer 2 \<noteq> peer 1" by (simp add: peer_def)
  from th w2 have 1: "peer 2 \<notin> fst ` set (cut_through_map ?s' (peer 4, 5))" by blast
  from th w2 have 2: "peer 2 \<notin> fst ` set (relay_sends (new_effects relay_node ?s'))" by blast
  from th have 3: "peer 4 \<notin> fst ` set (cut_through_map ?s' (peer 4, 5))" by blast
  from th m(1) have 4: "take 32 (remote_static_pk (peer 1)) \<notin> set (witness_chunks demo_chunk)" by blast
  from th hr have "\<forall>sub \<in> fst ` set (relay_sends (new_effects ?s'
        (snd (cut_through_recv_bytes relay_env (peer 4) 5 [4, 5, 6] ?s')))). sub \<in> {peer 1}"
    unfolding m(2) by blast
  with p have 5: "peer 2 \<notin> fst ` set (relay_sends (new_effects ?s'
        (snd (cut_through_recv_bytes relay_env (peer 4) 5 [4, 5, 6] ?s'))))" by blast
  from a w2 1 2 3 m(1) 4 hr 5 show ?thesis by blast
qed

subsection \<open>The one-slot invariant\<close>

lemma one_slot_remove_conn: "one_slot s \<Longrightarrow> one_slot (snd (remove_conn k t s))"
  unfolding one_slot_def by (auto simp: remove_conn_slots)

lemma one_slot_add_sol_standby_conn: "one_slot s \<Longrightarrow> one_slot (snd (add_sol_standby_conn t s))"
  unfolding one_slot_def
  by (auto simp: add_sol_standby_conn_def check_tranport_present_def check_tranport_in_set_def
      set_insert_def)

lemma one_slot_add_unsol_conn: "one_slot s \<Longrightarrow> one_slot (snd (add_unsol_conn E t s))"
  unfolding one_slot_def
  by (auto simp: add_unsol_conn_cases check_tranport_present_def check_tranport_in_set_def
      send_RESPONSE_def emit_def)

lemma one_slot_add_sol_conn: "one_slot s \<Longrightarrow> one_slot (snd (add_sol_conn E t s))"
proof (cases "max_sol_conns E \<le> length (sol_conns s)")
  case True
  assume "one_slot s"
  then show ?thesis
    using True unfolding one_slot_def
    by (auto simp: add_sol_conn_full check_tranport_present_def check_tranport_in_set_def)
next
  case False
  assume "one_slot s"
  then show ?thesis
    using False unfolding one_slot_def
    by (auto simp: add_sol_conn_def Let_def remove_conn_slots fold_send_SUBSCRIBE_slots
        send_RESPONSE_def emit_def set_insert_def check_tranport_present_def
        check_tranport_in_set_def)
qed

lemma one_slot_did_recv_SUBSCRIBE:
  "one_slot s \<Longrightarrow> one_slot (snd (did_recv_SUBSCRIBE E t bytes s))"
proof -
  assume o: "one_slot s"
  have b: "\<And>b. one_slot (s\<lparr>blacklist_addr := b\<rparr>)"
    using o by (simp add: one_slot_def)
  have e: "\<And>x s'. one_slot s' \<Longrightarrow> one_slot (emit x s')"
    by (simp add: one_slot_def emit_def)
  show ?thesis
    using o b
    by (simp add: did_recv_SUBSCRIBE_def Let_def one_slot_add_sol_conn one_slot_add_unsol_conn e)
qed

subsection \<open>Cut-through relay: the whole payload\<close>


lemma relay_sends_starts [simp]:
  "relay_sends (map (\<lambda>x. CutThroughSendStart x len) xs) = []"
  by (induction xs) simp_all

lemma relay_starts_starts [simp]:
  "relay_starts (map (\<lambda>x. CutThroughSendStart x len) xs) = xs"
  by (induction xs) simp_all













end
